theory Spec2Isabelle
  imports Complex_Main "HOL-Library.Log_Nat"
begin

section \<open>Arrays, exceptions and the stereo field transforms of inference.py\<close>

text \<open>
  The samples of a waveform are floating-point numbers in the program. The development
  works in exact arithmetic: a sample is a rational number, and the conversion to 32-bit
  floats (\<^verbatim>\<open>torch.tensor(..., dtype=torch.float32)\<close>, \<^verbatim>\<open>subtype='FLOAT'\<close>) is the
  identity. Rounding is outside of what is verified here.

  A numpy array of the program has one or two axes. \<open>A1 xs\<close> is the one-axis array that
  \<^verbatim>\<open>librosa.load(..., mono=False)\<close> returns for a mono file. \<open>A2 c rows\<close> is a two-axis
  array of shape \<open>(length rows, c)\<close>; the number of columns is kept beside the rows so
  that an array with no row still has its second dimension, as in numpy.
\<close>

datatype exn =
    IndexError
  | ZeroDivisionError
  | KeyError string
  | ValueError
  | LibraryError string

datatype ndarray = A1 "rat list" | A2 nat "rat list list"

fun shape :: "ndarray \<Rightarrow> nat list" where
  "shape (A1 xs) = [length xs]"
| "shape (A2 c rows) = [length rows, c]"

text \<open>\<^verbatim>\<open>a.shape[i]\<close>: an index past the end of the tuple raises IndexError.\<close>

definition shape_at :: "ndarray \<Rightarrow> nat \<Rightarrow> exn + nat" where
  "shape_at a i = (if i < length (shape a) then Inr (shape a ! i) else Inl IndexError)"

text \<open>Every row of a two-axis array has as many entries as the array has columns.\<close>

fun rectangular :: "ndarray \<Rightarrow> bool" where
  "rectangular (A1 xs) = True"
| "rectangular (A2 c rows) = list_all (\<lambda>row. length row = c) rows"

text \<open>Python's \<^verbatim>\<open>a / b\<close> on floats raises when the divisor is zero.\<close>

definition py_div :: "rat \<Rightarrow> rat \<Rightarrow> exn + rat" where
  "py_div a b = (if b = 0 then Inl ZeroDivisionError else Inr (a / b))"

text \<open>
  \<^verbatim>\<open>
  def stereo_narrowing(wave, value):
      n = 100 - value
      k1 = (50 + n / 2) / 100
      k2 = (50 - n / 2) / 100
      wave0 = copy.copy(wave[0])
      wave[0] = wave[0] * k1 + wave[1] * k2
      wave[1] = wave[1] * k1 + wave0 * k2
      return wave
  \<close>
  The function overwrites its argument and returns it; the model returns the new array.
  \<open>wave[0]\<close> and \<open>wave[1]\<close> are rows of a two-axis array and numbers of a one-axis
  array, and raise IndexError when the first axis is too short. The second assignment
  reads the row already overwritten only through \<open>wave[1]\<close>, which is still the old one,
  and the snapshot \<open>wave0\<close>.
\<close>

fun stereo_narrowing :: "ndarray \<Rightarrow> int \<Rightarrow> exn + ndarray" where
  "stereo_narrowing (A1 xs) val =
     (let n = 100 - val;
          k1 = (50 + rat_of_int n / 2) / 100;
          k2 = (50 - rat_of_int n / 2) / 100
      in if length xs < 2 then Inl IndexError
         else let wave0 = xs ! 0;
                  xs1 = xs[0 := xs ! 0 * k1 + xs ! 1 * k2];
                  xs2 = xs1[1 := xs1 ! 1 * k1 + wave0 * k2]
              in Inr (A1 xs2))"
| "stereo_narrowing (A2 c rows) val =
     (let n = 100 - val;
          k1 = (50 + rat_of_int n / 2) / 100;
          k2 = (50 - rat_of_int n / 2) / 100
      in if length rows < 2 then Inl IndexError
         else let wave0 = rows ! 0;
                  rows1 = rows[0 := map2 (\<lambda>a b. a * k1 + b * k2) (rows ! 0) (rows ! 1)];
                  rows2 = rows1[1 := map2 (\<lambda>b a. b * k1 + a * k2) (rows1 ! 1) wave0]
              in Inr (A2 c rows2))"

text \<open>
  \<^verbatim>\<open>
  def stereo_widering(wave, value):
      n = (100 - value) / 100
      k1 = .5 + n / 2
      k2 = .5 - n / 2
      wave0 = copy.copy(wave[0])
      wave[0] = wave[0] * (k1 / n) - wave[1] * (k2 / n)
      wave[1] = wave[1] * (k1 / n) - wave0 * (k2 / n)
      return wave
  \<close>
  \<open>value\<close> is a Python int, so \<open>n\<close>, \<open>k1\<close> and \<open>k2\<close> are Python floats and \<open>k1 / n\<close>
  raises ZeroDivisionError when \<open>n\<close> is zero. The order of the failures is the order of
  evaluation: \<open>wave[0]\<close> of the snapshot first, then \<open>k1 / n\<close>, then \<open>wave[1]\<close>.
\<close>

fun stereo_widering :: "ndarray \<Rightarrow> int \<Rightarrow> exn + ndarray" where
  "stereo_widering (A1 xs) val =
     (let n = rat_of_int (100 - val) / 100;
          k1 = 1 / 2 + n / 2;
          k2 = 1 / 2 - n / 2
      in if length xs < 1 then Inl IndexError
         else (case py_div k1 n of
                 Inl e \<Rightarrow> Inl e
               | Inr p \<Rightarrow>
                   if length xs < 2 then Inl IndexError
                   else (case py_div k2 n of
                           Inl e \<Rightarrow> Inl e
                         | Inr q \<Rightarrow>
                             (let wave0 = xs ! 0;
                                  xs1 = xs[0 := xs ! 0 * p - xs ! 1 * q];
                                  xs2 = xs1[1 := xs1 ! 1 * p - wave0 * q]
                              in Inr (A1 xs2)))))"
| "stereo_widering (A2 c rows) val =
     (let n = rat_of_int (100 - val) / 100;
          k1 = 1 / 2 + n / 2;
          k2 = 1 / 2 - n / 2
      in if length rows < 1 then Inl IndexError
         else (case py_div k1 n of
                 Inl e \<Rightarrow> Inl e
               | Inr p \<Rightarrow>
                   if length rows < 2 then Inl IndexError
                   else (case py_div k2 n of
                           Inl e \<Rightarrow> Inl e
                         | Inr q \<Rightarrow>
                             (let wave0 = rows ! 0;
                                  rows1 = rows[0 := map2 (\<lambda>a b. a * p - b * q) (rows ! 0) (rows ! 1)];
                                  rows2 = rows1[1 := map2 (\<lambda>b a. b * p - a * q) (rows1 ! 1) wave0]
                              in Inr (A2 c rows2)))))"

text \<open>A two-channel waveform: two rows of samples of the same length.\<close>

definition stereo_wave :: "ndarray \<Rightarrow> bool" where
  "stereo_wave w = (case w of A1 xs \<Rightarrow> False | A2 c rows \<Rightarrow> length rows = 2 \<and> rectangular w)"

text \<open>The sum of the two channels at each sample index.\<close>

definition channel_sum :: "ndarray \<Rightarrow> rat list" where
  "channel_sum w = (case w of A1 xs \<Rightarrow> [] | A2 c rows \<Rightarrow> map2 (+) (rows ! 0) (rows ! 1))"


section \<open>The stereo transforms in floating point\<close>

text \<open>
  The arrays of the program hold 32-bit floats, and \<open>value\<close>, \<open>n\<close>, \<open>k1\<close> and \<open>k2\<close> are
  Python numbers: every operation of the two transforms rounds. \<open>fl p x\<close> is \<open>x\<close> rounded
  to the nearest number with a significand of \<open>p\<close> bits, ties to the even significand;
  \<open>f32\<close> and \<open>f64\<close> are single and double precision. The exponent is not bounded:
  overflow and subnormal numbers are not modelled. \<open>binary_exponent x\<close> is the integer
  \<open>e\<close> with \<open>2 ^ e \<le> x < 2 ^ (e + 1)\<close>, found from the bit lengths of numerator and
  denominator.
\<close>

definition binary_exponent :: "rat \<Rightarrow> int" where
  "binary_exponent x =
     (let d = bitlen (fst (quotient_of x)) - bitlen (snd (quotient_of x))
      in if 2 powi d \<le> x then d else d - 1)"

definition round_half_even :: "rat \<Rightarrow> int" where
  "round_half_even m =
     (let f = \<lfloor>m\<rfloor>; d = m - of_int f
      in if d < 1 / 2 then f else if 1 / 2 < d then f + 1 else if even f then f else f + 1)"

definition fl :: "nat \<Rightarrow> rat \<Rightarrow> rat" where
  "fl p x =
     (if x = 0 then 0
      else let q = 2 powi (binary_exponent \<bar>x\<bar> - int p + 1)
           in sgn x * of_int (round_half_even (\<bar>x\<bar> / q)) * q)"

definition f32 :: "rat \<Rightarrow> rat" where "f32 x = fl 24 x"
definition f64 :: "rat \<Rightarrow> rat" where "f64 x = fl 53 x"

text \<open>
  The two transforms with the rounding of every operation written out, \<open>r64\<close> for the
  Python floats and \<open>r32\<close> for the arrays. \<open>n / 2\<close> of an int is the rounded quotient;
  a Python float that multiplies a 32-bit array is first converted to 32 bits, and the
  product and the sum are rounded to 32 bits. With no rounding at all these are
  \<open>stereo_narrowing\<close> and \<open>stereo_widering\<close>.
\<close>

fun narrowing_with :: "(rat \<Rightarrow> rat) \<Rightarrow> (rat \<Rightarrow> rat) \<Rightarrow> ndarray \<Rightarrow> int \<Rightarrow> exn + ndarray" where
  "narrowing_with r64 r32 (A1 xs) val =
     (let n = 100 - val;
          k1 = r64 (r64 (50 + r64 (rat_of_int n / 2)) / 100);
          k2 = r64 (r64 (50 - r64 (rat_of_int n / 2)) / 100)
      in if length xs < 2 then Inl IndexError
         else let wave0 = xs ! 0;
                  xs1 = xs[0 := r32 (r32 (xs ! 0 * r32 k1) + r32 (xs ! 1 * r32 k2))];
                  xs2 = xs1[1 := r32 (r32 (xs1 ! 1 * r32 k1) + r32 (wave0 * r32 k2))]
              in Inr (A1 xs2))"
| "narrowing_with r64 r32 (A2 c rows) val =
     (let n = 100 - val;
          k1 = r64 (r64 (50 + r64 (rat_of_int n / 2)) / 100);
          k2 = r64 (r64 (50 - r64 (rat_of_int n / 2)) / 100)
      in if length rows < 2 then Inl IndexError
         else let wave0 = rows ! 0;
                  rows1 = rows[0 := map2 (\<lambda>a b. r32 (r32 (a * r32 k1) + r32 (b * r32 k2)))
                                     (rows ! 0) (rows ! 1)];
                  rows2 = rows1[1 := map2 (\<lambda>b a. r32 (r32 (b * r32 k1) + r32 (a * r32 k2)))
                                      (rows1 ! 1) wave0]
              in Inr (A2 c rows2))"

fun widering_with :: "(rat \<Rightarrow> rat) \<Rightarrow> (rat \<Rightarrow> rat) \<Rightarrow> ndarray \<Rightarrow> int \<Rightarrow> exn + ndarray" where
  "widering_with r64 r32 (A1 xs) val =
     (let n = r64 (rat_of_int (100 - val) / 100);
          k1 = r64 (1 / 2 + r64 (n / 2));
          k2 = r64 (1 / 2 - r64 (n / 2))
      in if length xs < 1 then Inl IndexError
         else (case py_div k1 n of
                 Inl e \<Rightarrow> Inl e
               | Inr p \<Rightarrow>
                   if length xs < 2 then Inl IndexError
                   else (case py_div k2 n of
                           Inl e \<Rightarrow> Inl e
                         | Inr q \<Rightarrow>
                             (let wave0 = xs ! 0;
                                  xs1 = xs[0 := r32 (r32 (xs ! 0 * r32 (r64 p))
                                                     - r32 (xs ! 1 * r32 (r64 q)))];
                                  xs2 = xs1[1 := r32 (r32 (xs1 ! 1 * r32 (r64 p))
                                                      - r32 (wave0 * r32 (r64 q)))]
                              in Inr (A1 xs2)))))"
| "widering_with r64 r32 (A2 c rows) val =
     (let n = r64 (rat_of_int (100 - val) / 100);
          k1 = r64 (1 / 2 + r64 (n / 2));
          k2 = r64 (1 / 2 - r64 (n / 2))
      in if length rows < 1 then Inl IndexError
         else (case py_div k1 n of
                 Inl e \<Rightarrow> Inl e
               | Inr p \<Rightarrow>
                   if length rows < 2 then Inl IndexError
                   else (case py_div k2 n of
                           Inl e \<Rightarrow> Inl e
                         | Inr q \<Rightarrow>
                             (let wave0 = rows ! 0;
                                  rows1 = rows[0 := map2 (\<lambda>a b. r32 (r32 (a * r32 (r64 p))
                                                                    - r32 (b * r32 (r64 q))))
                                                     (rows ! 0) (rows ! 1)];
                                  rows2 = rows1[1 := map2 (\<lambda>b a. r32 (r32 (b * r32 (r64 p))
                                                                     - r32 (a * r32 (r64 q))))
                                                      (rows1 ! 1) wave0]
                              in Inr (A2 c rows2)))))"

text \<open>
  \<open>near g T y t\<close>: the computed \<open>y\<close> is within \<open>g * T\<close> of the exact \<open>t\<close>, and \<open>T\<close>
  bounds the size of \<open>t\<close>.
\<close>

definition near :: "rat \<Rightarrow> rat \<Rightarrow> rat \<Rightarrow> rat \<Rightarrow> bool" where
  "near g T y t \<longleftrightarrow> \<bar>y - t\<bar> \<le> g * T \<and> \<bar>t\<bar> \<le> T"

section \<open>The array operations the runners use\<close>

text \<open>\<^verbatim>\<open>a.shape[0]\<close>, which every array has.\<close>

fun dim0 :: "ndarray \<Rightarrow> nat" where
  "dim0 (A1 xs) = length xs"
| "dim0 (A2 c rows) = length rows"

text \<open>\<^verbatim>\<open>a.T\<close>: a one-axis array is its own transpose.\<close>

fun transpose_nd :: "ndarray \<Rightarrow> ndarray" where
  "transpose_nd (A1 xs) = A1 xs"
| "transpose_nd (A2 c rows) = A2 (length rows) (map (\<lambda>j. map (\<lambda>row. row ! j) rows) [0..<c])"

text \<open>\<^verbatim>\<open>np.zeros((r, c))\<close>\<close>

definition zeros :: "nat \<Rightarrow> nat \<Rightarrow> ndarray" where
  "zeros r c = A2 c (replicate r (replicate c 0))"

text \<open>
  \<^verbatim>\<open>np.vstack([a, b])\<close>: a one-axis array of length \<open>n\<close> counts as one row of \<open>n\<close>
  columns, and the column counts must agree.
\<close>

fun atleast_2d :: "ndarray \<Rightarrow> nat \<times> rat list list" where
  "atleast_2d (A1 xs) = (length xs, [xs])"
| "atleast_2d (A2 c rows) = (c, rows)"

definition vstack :: "ndarray \<Rightarrow> ndarray \<Rightarrow> exn + ndarray" where
  "vstack a b =
     (case (atleast_2d a, atleast_2d b) of
        ((c, rows), (c', rows')) \<Rightarrow>
          if c = c' then Inr (A2 c (rows @ rows')) else Inl ValueError)"

text \<open>
  \<^verbatim>\<open>
  if len(mix.shape) == 1:
      mix = np.stack([mix, mix], axis=-1)
  \<close>
\<close>

fun mono_to_stereo :: "ndarray \<Rightarrow> ndarray" where
  "mono_to_stereo (A1 xs) = A2 2 (map (\<lambda>x. [x, x]) xs)"
| "mono_to_stereo (A2 c rows) = A2 c rows"

text \<open>\<^verbatim>\<open>a[:, :k]\<close>: two indices on a one-axis array raise IndexError.\<close>

fun slice_cols :: "ndarray \<Rightarrow> nat \<Rightarrow> exn + ndarray" where
  "slice_cols (A1 xs) k = Inl IndexError"
| "slice_cols (A2 c rows) k = Inr (A2 (min c k) (map (take k) rows))"

text \<open>
  \<^verbatim>\<open>a - b\<close> with numpy's broadcasting: the shapes are aligned at the last axis, an axis
  of length one is stretched to the length of the other, and two lengths that differ
  and are both not one raise ValueError.
\<close>

definition bdim :: "nat \<Rightarrow> nat \<Rightarrow> nat option" where
  "bdim m n = (if m = n then Some m else if m = 1 then Some n else if n = 1 then Some m else None)"

definition stretch :: "nat \<Rightarrow> 'a list \<Rightarrow> 'a list" where
  "stretch n xs = (if length xs = n then xs else replicate n (hd xs))"

definition subtract_rows :: "nat \<times> rat list list \<Rightarrow> nat \<times> rat list list \<Rightarrow> exn + nat \<times> rat list list" where
  "subtract_rows a b =
     (case (a, b) of
        ((c, rows), (c', rows')) \<Rightarrow>
          (case (bdim (length rows) (length rows'), bdim c c') of
             (Some r'', Some c'') \<Rightarrow>
               Inr (c'', map2 (\<lambda>x y. map2 (-) (stretch c'' x) (stretch c'' y))
                              (stretch r'' rows) (stretch r'' rows'))
           | _ \<Rightarrow> Inl ValueError))"

fun subtract_nd :: "ndarray \<Rightarrow> ndarray \<Rightarrow> exn + ndarray" where
  "subtract_nd (A1 xs) (A1 ys) =
     (case bdim (length xs) (length ys) of
        Some n \<Rightarrow> Inr (A1 (map2 (-) (stretch n xs) (stretch n ys)))
      | None \<Rightarrow> Inl ValueError)"
| "subtract_nd a b =
     (case subtract_rows (atleast_2d a) (atleast_2d b) of
        Inl e \<Rightarrow> Inl e
      | Inr (c, rows) \<Rightarrow> Inr (A2 c rows))"

text \<open>The entry of a two-axis array at row \<open>i\<close> and column \<open>j\<close>.\<close>

fun entry :: "ndarray \<Rightarrow> nat \<Rightarrow> nat \<Rightarrow> rat" where
  "entry (A1 xs) i j = xs ! j"
| "entry (A2 c rows) i j = rows ! i ! j"

section \<open>Output file names\<close>

text \<open>
  \<^verbatim>\<open>os.path.basename(p)\<close> is what follows the last slash of \<open>p\<close>, and
  \<^verbatim>\<open>"{}/{}_{}.wav".format(args.store_dir, os.path.basename(path)[:-4], instr)\<close>
  drops the last four characters of it (all of them when there are fewer than four).
\<close>

definition basename :: "string \<Rightarrow> string" where
  "basename p = rev (takeWhile (\<lambda>ch. ch \<noteq> CHR ''/'') (rev p))"

definition out_name :: "string \<Rightarrow> string \<Rightarrow> string \<Rightarrow> string" where
  "out_name dir path instr =
     dir @ ''/'' @ take (length (basename path) - 4) (basename path) @ ''_'' @ instr @ ''.wav''"

section \<open>The world of a run\<close>

text \<open>
  \<open>args\<close> are the parsed command-line options the runners read, \<open>config\<close> the two
  fields of \<^verbatim>\<open>config.training\<close> they read. The field \<open>arg_stereo_narrowing\<close> is
  \<^verbatim>\<open>args.stereo_narrowing\<close>.
\<close>

record args =
  model_type :: string
  input_file :: string
  input_folder :: string
  store_dir :: string
  extract_instrumental :: bool
  arg_stereo_narrowing :: int

record config =
  instruments :: "string list"
  target_instrument :: "string option"

text \<open>
  What the runners ask of the outside: the file system (\<open>isfile\<close> at a time given in
  seconds slept so far, \<open>isdir\<close>, \<open>mkdir\<close> with the exception it raises if any, \<open>glob\<close>),
  the decoder \<^verbatim>\<open>librosa.load(path, sr=44100, mono=False)\<close> with the array and the
  sample rate it returns or the exception it raises, and the two separation strategies
  of \<^verbatim>\<open>utils\<close>, which are not part of this file: each maps the mixture to a dictionary
  from stem names to arrays, or raises. The model, the configuration and the device they
  also receive are fixed during a run.
\<close>

record env =
  isfile :: "string \<Rightarrow> nat \<Rightarrow> bool"
  isdir :: "string \<Rightarrow> bool"
  mkdir :: "string \<Rightarrow> exn option"
  glob :: "string \<Rightarrow> string list"
  load :: "string \<Rightarrow> exn + ndarray \<times> nat"
  demix_track :: "ndarray \<Rightarrow> exn + (string \<rightharpoonup> ndarray)"
  demix_track_demucs :: "ndarray \<Rightarrow> exn + (string \<rightharpoonup> ndarray)"

text \<open>
  What a run leaves behind: the calls of \<^verbatim>\<open>time.sleep\<close> with their seconds, the lines
  printed, the files written by \<^verbatim>\<open>sf.write(name, data, sr, subtype='FLOAT')\<close> and the
  directories made. Writing a file is taken to succeed. The elapsed time that
  \<open>run_folder\<close> prints is not recorded, nor is the progress bar.
\<close>

datatype event =
    InputFileMissing
  | CanReadTrack string
  | ErrorMessage exn
  | TotalFilesFound nat
  | ElapsedTime

record run_state =
  sleeps :: "nat list"
  printed :: "event list"
  written :: "(string \<times> ndarray \<times> nat) list"
  dirs_made :: "string list"

definition init_state :: run_state where
  "init_state = \<lparr>sleeps = [], printed = [], written = [], dirs_made = []\<rparr>"

datatype outcome = Returned | Raised exn

definition sleep :: "nat \<Rightarrow> run_state \<Rightarrow> run_state" where
  "sleep n s = s\<lparr>sleeps := sleeps s @ [n]\<rparr>"

definition print :: "event list \<Rightarrow> run_state \<Rightarrow> run_state" where
  "print es s = s\<lparr>printed := printed s @ es\<rparr>"

definition sf_write :: "string \<Rightarrow> ndarray \<Rightarrow> nat \<Rightarrow> run_state \<Rightarrow> run_state" where
  "sf_write name data sr s = s\<lparr>written := written s @ [(name, data, sr)]\<rparr>"

text \<open>
  \<^verbatim>\<open>
  if not os.path.isdir(args.store_dir):
      os.mkdir(args.store_dir)
  \<close>
\<close>

definition ensure_store_dir :: "env \<Rightarrow> args \<Rightarrow> run_state \<Rightarrow> exn + run_state" where
  "ensure_store_dir w a s =
     (if \<not> isdir w (store_dir a)
      then (case mkdir w (store_dir a) of
              Some e \<Rightarrow> Inl e
            | None \<Rightarrow> Inr (s\<lparr>dirs_made := dirs_made s @ [store_dir a]\<rparr>))
      else Inr s)"

text \<open>
  \<^verbatim>\<open>
  if args.model_type == 'htdemucs':
      res = demix_track_demucs(config, model, mixture, device)
  else:
      res = demix_track(config, model, mixture, device)
  \<close>
\<close>

definition separate :: "env \<Rightarrow> args \<Rightarrow> ndarray \<Rightarrow> exn + (string \<rightharpoonup> ndarray)" where
  "separate w a mixture =
     (if model_type a = ''htdemucs'' then demix_track_demucs w mixture else demix_track w mixture)"

text \<open>
  \<^verbatim>\<open>
  instruments = config.training.instruments
  if config.training.target_instrument is not None:
      instruments = [config.training.target_instrument]
  \<close>
\<close>

definition active_instruments :: "config \<Rightarrow> string list" where
  "active_instruments cfg =
     (case target_instrument cfg of None \<Rightarrow> instruments cfg | Some t \<Rightarrow> [t])"


section \<open>run\_single\_file\<close>

text \<open>
  inference.py holds \<open>run_folder\<close> and \<open>proc_single_file\<close> twice. The two bodies of
  \<open>run_folder\<close> are the same; of \<open>proc_single_file\<close> the later one, which a Python
  module keeps, is modelled: it is the one with the \<^verbatim>\<open>--stereo_narrowing\<close> option.
  \<open>run_single_file\<close> is the function of lines 41 to 90.
\<close>

text \<open>
  The body of the \<^verbatim>\<open>try\<close> block of \<open>run_single_file\<close>; any exception in it is caught
  by \<^verbatim>\<open>except Exception\<close>.
  \<^verbatim>\<open>
  mix, sr = librosa.load(args.input_file, sr=44100, mono=False)
  is_stereo = mix.shape[0] == 2
  if args.stereo_narrowing != 0 and is_stereo:
      mix = stereo_narrowing(mix, args.stereo_narrowing)
  mix = mix.T
  original_length = mix.shape[0]
  silence_duration = 5
  silence = np.zeros((silence_duration * sr, mix.shape[1]))
  mix = np.vstack([mix, silence])
  \<close>
  It yields the padded array, the sample rate, \<open>is_stereo\<close> and \<open>original_length\<close>.
\<close>

definition prepare :: "env \<Rightarrow> args \<Rightarrow> exn + ndarray \<times> nat \<times> bool \<times> nat" where
  "prepare w a =
     (case load w (input_file a) of
        Inl e \<Rightarrow> Inl e
      | Inr (mix, sr) \<Rightarrow>
          let is_stereo = (dim0 mix = 2) in
          (case (if arg_stereo_narrowing a \<noteq> 0 \<and> is_stereo
                 then stereo_narrowing mix (arg_stereo_narrowing a) else Inr mix) of
             Inl e \<Rightarrow> Inl e
           | Inr mix1 \<Rightarrow>
               let mix2 = transpose_nd mix1;
                   original_length = dim0 mix2
               in (case shape_at mix2 1 of
                     Inl e \<Rightarrow> Inl e
                   | Inr c \<Rightarrow>
                       (case vstack mix2 (zeros (5 * sr) c) of
                          Inl e \<Rightarrow> Inl e
                        | Inr mix3 \<Rightarrow> Inr (mix3, sr, is_stereo, original_length)))))"

text \<open>
  The loop over the instruments. \<open>res[instr]\<close> is replaced by its slice, and
  \<open>stereo_widering\<close> overwrites that slice in place, so the dictionary is part of the
  loop's state. An exception ends the run with the files written so far.
  \<^verbatim>\<open>
  for instr in instruments:
      res[instr] = res[instr][:, :original_length]
      if args.stereo_narrowing != 0 and is_stereo:
          sf.write("{}/{}_{}.wav".format(args.store_dir,
                   os.path.basename(args.input_file)[:-4], instr),
                   stereo_widering(res[instr], args.stereo_narrowing).T, sr, subtype='FLOAT')
      else:
          sf.write("{}/{}_{}.wav".format(args.store_dir,
                   os.path.basename(args.input_file)[:-4], instr),
                   res[instr].T, sr, subtype='FLOAT')
  \<close>
\<close>

fun write_stems ::
  "args \<Rightarrow> nat \<Rightarrow> bool \<Rightarrow> nat \<Rightarrow> string list \<Rightarrow> (string \<rightharpoonup> ndarray) \<Rightarrow> run_state
     \<Rightarrow> outcome \<times> run_state" where
  "write_stems a sr is_stereo original_length [] res s = (Returned, s)"
| "write_stems a sr is_stereo original_length (instr # rest) res s =
     (case res instr of
        None \<Rightarrow> (Raised (KeyError instr), s)
      | Some stem \<Rightarrow>
          (case slice_cols stem original_length of
             Inl e \<Rightarrow> (Raised e, s)
           | Inr sliced \<Rightarrow>
               if arg_stereo_narrowing a \<noteq> 0 \<and> is_stereo
               then (case stereo_widering sliced (arg_stereo_narrowing a) of
                       Inl e \<Rightarrow> (Raised e, s)
                     | Inr wide \<Rightarrow>
                         write_stems a sr is_stereo original_length rest (res(instr \<mapsto> wide))
                           (sf_write (out_name (store_dir a) (input_file a) instr)
                              (transpose_nd wide) sr s))
               else write_stems a sr is_stereo original_length rest (res(instr \<mapsto> sliced))
                      (sf_write (out_name (store_dir a) (input_file a) instr)
                         (transpose_nd sliced) sr s)))"

text \<open>
  What follows the existence check of \<open>run_single_file\<close>: the output directory, the
  \<^verbatim>\<open>try\<close> block with its handler, the mono check, the separation and the loop.
\<close>

definition separate_and_write :: "env \<Rightarrow> args \<Rightarrow> config \<Rightarrow> run_state \<Rightarrow> outcome \<times> run_state" where
  "separate_and_write w a cfg s =
     (case ensure_store_dir w a s of
        Inl e \<Rightarrow> (Raised e, s)
      | Inr s1 \<Rightarrow>
          (case prepare w a of
             Inl e \<Rightarrow> (Returned, print [CanReadTrack (input_file a), ErrorMessage e] s1)
           | Inr (mix, sr, is_stereo, original_length) \<Rightarrow>
               (case separate w a (transpose_nd (mono_to_stereo mix)) of
                  Inl e \<Rightarrow> (Raised e, s1)
                | Inr res \<Rightarrow>
                    write_stems a sr is_stereo original_length (active_instruments cfg) res s1)))"

text \<open>
  \<^verbatim>\<open>
  if not os.path.isfile(args.input_file):
      time.sleep(1)
      if not os.path.isfile(args.input_file):
          print("Input file doesn't exist!")
          return
  \<close>
\<close>

definition run_single_file :: "env \<Rightarrow> args \<Rightarrow> config \<Rightarrow> run_state \<Rightarrow> outcome \<times> run_state" where
  "run_single_file w a cfg s =
     (if \<not> isfile w (input_file a) (sum_list (sleeps s))
      then let s1 = sleep 1 s
           in if \<not> isfile w (input_file a) (sum_list (sleeps s1))
              then (Returned, print [InputFileMissing] s1)
              else separate_and_write w a cfg s1
      else separate_and_write w a cfg s)"

text \<open>
  \<open>proc_single_file\<close> builds \<open>args\<close> from the command line and calls \<open>run_single_file\<close>.
  \<open>cli\<close> holds the options after argparse has converted them, \<open>None\<close> for an option
  that was not given; \<open>parse_args\<close> fills in the defaults of the parser.
  \<^verbatim>\<open>
  parser.add_argument("--model_type", type=str, default='mdx23c', ...)
  parser.add_argument("--input_file", type=str, ...)
  parser.add_argument("--store_dir", default="", type=str, ...)
  parser.add_argument("--extract_instrumental", action='store_true', ...)
  parser.add_argument("--stereo_narrowing", type=int, default=0, ...)
  \<close>
  The parser has no input folder. Building the model, loading the checkpoint and
  choosing the device come between the two steps and are no part of the model; the
  configuration they yield is a parameter.
\<close>

record cli =
  opt_model_type :: "string option"
  opt_input_file :: string
  opt_store_dir :: "string option"
  opt_extract_instrumental :: bool
  opt_stereo_narrowing :: "int option"

definition parse_args :: "cli \<Rightarrow> args" where
  "parse_args c =
     \<lparr>model_type = (case opt_model_type c of None \<Rightarrow> ''mdx23c'' | Some m \<Rightarrow> m),
      input_file = opt_input_file c,
      input_folder = [],
      store_dir = (case opt_store_dir c of None \<Rightarrow> [] | Some d \<Rightarrow> d),
      extract_instrumental = opt_extract_instrumental c,
      arg_stereo_narrowing = (case opt_stereo_narrowing c of None \<Rightarrow> 0 | Some v \<Rightarrow> v)\<rparr>"

definition proc_single_file :: "env \<Rightarrow> cli \<Rightarrow> config \<Rightarrow> outcome \<times> run_state" where
  "proc_single_file w c cfg = run_single_file w (parse_args c) cfg init_state"

section \<open>run\_folder\<close>

text \<open>
  \<^verbatim>\<open>
  for instr in instruments:
      sf.write("{}/{}_{}.wav".format(args.store_dir, os.path.basename(path)[:-4], instr),
               res[instr].T, sr, subtype='FLOAT')
  \<close>
\<close>

fun write_folder_stems ::
  "args \<Rightarrow> string \<Rightarrow> nat \<Rightarrow> string list \<Rightarrow> (string \<rightharpoonup> ndarray) \<Rightarrow> run_state
     \<Rightarrow> outcome \<times> run_state" where
  "write_folder_stems a path sr [] res s = (Returned, s)"
| "write_folder_stems a path sr (instr # rest) res s =
     (case res instr of
        None \<Rightarrow> (Raised (KeyError instr), s)
      | Some stem \<Rightarrow>
          write_folder_stems a path sr rest res
            (sf_write (out_name (store_dir a) path instr) (transpose_nd stem) sr s))"

text \<open>
  \<^verbatim>\<open>
  if 'vocals' in instruments and args.extract_instrumental:
      instrum_file_name = "{}/{}_{}.wav".format(args.store_dir,
                                                os.path.basename(path)[:-4], 'instrumental')
      sf.write(instrum_file_name, mix - res['vocals'].T, sr, subtype='FLOAT')
  \<close>
\<close>

definition write_instrumental ::
  "args \<Rightarrow> string \<Rightarrow> nat \<Rightarrow> string list \<Rightarrow> ndarray \<Rightarrow> (string \<rightharpoonup> ndarray) \<Rightarrow> run_state
     \<Rightarrow> outcome \<times> run_state" where
  "write_instrumental a path sr instrs mix res s =
     (if ''vocals'' \<in> set instrs \<and> extract_instrumental a
      then (case res ''vocals'' of
              None \<Rightarrow> (Raised (KeyError ''vocals''), s)
            | Some vocals \<Rightarrow>
                (case subtract_nd mix (transpose_nd vocals) of
                   Inl e \<Rightarrow> (Raised e, s)
                 | Inr diff \<Rightarrow>
                     (Returned, sf_write (out_name (store_dir a) path ''instrumental'') diff sr s)))
      else (Returned, s))"

text \<open>
  One pass of the loop over the files. \<open>Returned\<close> stands for the end of the pass, by
  \<^verbatim>\<open>continue\<close> or at the end of the body; \<open>Raised\<close> for an exception that leaves the loop.
  \<^verbatim>\<open>
  try:
      mix, sr = librosa.load(path, sr=44100, mono=False)
      mix = mix.T
  except Exception as e:
      print('Can read track: {}'.format(path))
      print('Error message: {}'.format(str(e)))
      continue
  if len(mix.shape) == 1:
      mix = np.stack([mix, mix], axis=-1)
  mixture = torch.tensor(mix.T, dtype=torch.float32)
  \<close>
\<close>

definition folder_mix :: "ndarray \<Rightarrow> ndarray" where
  "folder_mix loaded = mono_to_stereo (transpose_nd loaded)"

definition folder_track ::
  "env \<Rightarrow> args \<Rightarrow> string list \<Rightarrow> string \<Rightarrow> run_state \<Rightarrow> outcome \<times> run_state" where
  "folder_track w a instrs path s =
     (case load w path of
        Inl e \<Rightarrow> (Returned, print [CanReadTrack path, ErrorMessage e] s)
      | Inr (loaded, sr) \<Rightarrow>
          let mix = folder_mix loaded in
          (case separate w a (transpose_nd mix) of
             Inl e \<Rightarrow> (Raised e, s)
           | Inr res \<Rightarrow>
               (case write_folder_stems a path sr instrs res s of
                  (Raised e, s1) \<Rightarrow> (Raised e, s1)
                | (Returned, s1) \<Rightarrow> write_instrumental a path sr instrs mix res s1)))"

fun folder_loop ::
  "env \<Rightarrow> args \<Rightarrow> string list \<Rightarrow> string list \<Rightarrow> run_state \<Rightarrow> outcome \<times> run_state" where
  "folder_loop w a instrs [] s = (Returned, s)"
| "folder_loop w a instrs (path # rest) s =
     (case folder_track w a instrs path s of
        (Raised e, s1) \<Rightarrow> (Raised e, s1)
      | (Returned, s1) \<Rightarrow> folder_loop w a instrs rest s1)"

text \<open>
  \<^verbatim>\<open>
  all_mixtures_path = glob.glob(args.input_folder + '/*.*')
  print('Total files found: {}'.format(len(all_mixtures_path)))
  ...
  for path in all_mixtures_path: ...
  time.sleep(1)
  print("Elapsed time: {:.2f} sec".format(time.time() - start_time))
  \<close>
\<close>

definition run_folder :: "env \<Rightarrow> args \<Rightarrow> config \<Rightarrow> run_state \<Rightarrow> outcome \<times> run_state" where
  "run_folder w a cfg s =
     (let all_mixtures_path = glob w (input_folder a @ ''/*.*'');
          s1 = print [TotalFilesFound (length all_mixtures_path)] s
      in case ensure_store_dir w a s1 of
           Inl e \<Rightarrow> (Raised e, s1)
         | Inr s2 \<Rightarrow>
             (case folder_loop w a (active_instruments cfg) all_mixtures_path s2 of
                (Raised e, s3) \<Rightarrow> (Raised e, s3)
              | (Returned, s3) \<Rightarrow> (Returned, print [ElapsedTime] (sleep 1 s3))))"


section \<open>A small world for the examples\<close>

text \<open>
  A folder \<open>in\<close> with two stereo files of three samples, a mono file of two samples and
  a file that does not decode; a file \<open>in/late.mp3\<close> that exists from the first second
  on. The separation puts a quarter of the mixture into the vocals and the rest into the
  other stem.
\<close>

fun scale_nd :: "rat \<Rightarrow> ndarray \<Rightarrow> ndarray" where
  "scale_nd k (A1 xs) = A1 (map (\<lambda>x. k * x) xs)"
| "scale_nd k (A2 c rows) = A2 c (map (map (\<lambda>x. k * x)) rows)"

definition demo_engine :: "ndarray \<Rightarrow> exn + (string \<rightharpoonup> ndarray)" where
  "demo_engine m =
     Inr (\<lambda>i. if i = ''vocals'' then Some (scale_nd (1 / 4) m)
              else if i = ''other'' then Some (scale_nd (3 / 4) m)
              else None)"

definition demo_env :: env where
  "demo_env =
     \<lparr>isfile = (\<lambda>p t. p = ''in/song.mp3'' \<or> p = ''in/song.flac'' \<or> p = ''in/mono.wav''
                        \<or> (p = ''in/late.mp3'' \<and> 1 \<le> t)),
      isdir = (\<lambda>d. False),
      mkdir = (\<lambda>d. None),
      glob = (\<lambda>pat. if pat = ''in/*.*''
                     then [''in/song.mp3'', ''in/bad.mp3'', ''in/song.flac'', ''in/mono.wav'']
                     else []),
      load = (\<lambda>p. if p = ''in/bad.mp3'' then Inl (LibraryError ''decoding failed'')
                   else if p = ''in/mono.wav'' then Inr (A1 [1 / 2, 1 / 4], 44100)
                   else Inr (A2 3 [[1, 2, 3], [4, 5, 6]], 44100)),
      demix_track = demo_engine,
      demix_track_demucs = (\<lambda>m. Inl (LibraryError ''no such model''))\<rparr>"

definition demo_args :: args where
  "demo_args =
     \<lparr>model_type = ''mdx23c'', input_file = ''in/song.mp3'', input_folder = ''in'',
      store_dir = ''out'', extract_instrumental = True, arg_stereo_narrowing = 30\<rparr>"

definition demo_config :: config where
  "demo_config = \<lparr>instruments = [''vocals'', ''other''], target_instrument = None\<rparr>"

definition demo_cli :: cli where
  "demo_cli =
     \<lparr>opt_model_type = None, opt_input_file = ''in/song.mp3'', opt_store_dir = Some ''out'',
      opt_extract_instrumental = False, opt_stereo_narrowing = Some 100\<rparr>"

section \<open>The stereo transforms are inverse to each other\<close>

lemma stereo_wave_rows:
  "stereo_wave w \<Longrightarrow> \<exists>c l r. w = A2 c [l, r] \<and> length l = length r \<and> length l = c"
  by (cases w) (auto simp: stereo_wave_def length_Suc_conv numeral_2_eq_2)

lemma narrowing_two_rows:
  assumes "k1 = (50 + rat_of_int (100 - v) / 2) / 100"
    and "k2 = (50 - rat_of_int (100 - v) / 2) / 100"
  shows "stereo_narrowing (A2 c [l, r]) v =
     Inr (A2 c [map2 (\<lambda>a b. a * k1 + b * k2) l r, map2 (\<lambda>b a. b * k1 + a * k2) r l])"
  unfolding assms by (simp add: Let_def)

lemma widering_two_rows:
  assumes "v \<noteq> 100"
    and "p = (1 / 2 + rat_of_int (100 - v) / 100 / 2) / (rat_of_int (100 - v) / 100)"
    and "q = (1 / 2 - rat_of_int (100 - v) / 100 / 2) / (rat_of_int (100 - v) / 100)"
  shows "stereo_widering (A2 c [l, r]) v =
     Inr (A2 c [map2 (\<lambda>a b. a * p - b * q) l r, map2 (\<lambda>b a. b * p - a * q) r l])"
  unfolding assms(2,3) using assms(1) by (simp add: Let_def py_div_def)


lemma sum_rows_plus:
  assumes "length l = length r" and "k1 + k2 = (1::rat)"
  shows "map2 (+) (map2 (\<lambda>a b. a * k1 + b * k2) l r) (map2 (\<lambda>b a. b * k1 + a * k2) r l)
           = map2 (+) l r"
  using assms(1)
proof (induction l r rule: list_induct2)
  case Nil
  then show ?case by simp
next
  case (Cons x xs y ys)
  have "x * k1 + y * k2 + (y * k1 + x * k2) = (x + y) * (k1 + k2)"
    by (simp add: algebra_simps)
  then show ?case using Cons assms(2) by simp
qed

lemma sum_rows_minus:
  assumes "length l = length r" and "p - q = (1::rat)"
  shows "map2 (+) (map2 (\<lambda>a b. a * p - b * q) l r) (map2 (\<lambda>b a. b * p - a * q) r l)
           = map2 (+) l r"
  using assms(1)
proof (induction l r rule: list_induct2)
  case Nil
  then show ?case by simp
next
  case (Cons x xs y ys)
  have "x * p - y * q + (y * p - x * q) = (x + y) * (p - q)"
    by (simp add: algebra_simps)
  then show ?case using Cons assms(2) by simp
qed

lemma width_coefficients:
  fixes m :: rat
  assumes "m \<noteq> 0"
  shows "(1 / 2 + m / 100 / 2) / (m / 100) * ((50 + m / 2) / 100)
           - (1 / 2 - m / 100 / 2) / (m / 100) * ((50 - m / 2) / 100) = 1"
    and "(1 / 2 + m / 100 / 2) / (m / 100) * ((50 - m / 2) / 100)
           - (1 / 2 - m / 100 / 2) / (m / 100) * ((50 + m / 2) / 100) = 0"
    and "(1 / 2 + m / 100 / 2) / (m / 100) - (1 / 2 - m / 100 / 2) / (m / 100) = 1"
  using assms by (simp_all add: field_simps)

lemma narrow_coefficients:
  fixes m :: rat
  shows "(50 + m / 2) / 100 + (50 - m / 2) / 100 = 1"
  by (simp add: field_simps)

lemma width_nonzero: "v \<noteq> 100 \<Longrightarrow> rat_of_int (100 - v) \<noteq> 0"
  by simp



text \<open>
  Claim C10. On a two-channel waveform, \<open>stereo_narrowing\<close> with any width and
  \<open>stereo_widering\<close> with any width other than 100 succeed, give a two-channel waveform
  again, and leave the sum of the two channels at every sample index as it was.
\<close>

theorem transforms_preserve_channel_sum:
  assumes "stereo_wave w"
  shows "(\<exists>w'. stereo_narrowing w v = Inr w' \<and> stereo_wave w' \<and> channel_sum w' = channel_sum w)
       \<and> (v \<noteq> 100 \<longrightarrow>
            (\<exists>w'. stereo_widering w v = Inr w' \<and> stereo_wave w' \<and> channel_sum w' = channel_sum w))"
proof -
  obtain c l r where w: "w = A2 c [l, r]" and len: "length l = length r" and c: "length l = c"
    using stereo_wave_rows [OF assms(1)] by blast
  define m where "m = rat_of_int (100 - v)"
  define k1 where "k1 = (50 + m / 2) / 100"
  define k2 where "k2 = (50 - m / 2) / 100"
  define p where "p = (1 / 2 + m / 100 / 2) / (m / 100)"
  define q where "q = (1 / 2 - m / 100 / 2) / (m / 100)"
  have sum_w: "channel_sum w = map2 (+) l r"
    by (simp add: w channel_sum_def)
  have narrow: "stereo_narrowing (A2 c [l, r]) v =
      Inr (A2 c [map2 (\<lambda>a b. a * k1 + b * k2) l r, map2 (\<lambda>b a. b * k1 + a * k2) r l])"
    by (rule narrowing_two_rows) (simp_all only: k1_def k2_def m_def)
  have k: "k1 + k2 = 1"
    unfolding k1_def k2_def by (rule narrow_coefficients)
  have "stereo_wave (A2 c [map2 (\<lambda>a b. a * k1 + b * k2) l r, map2 (\<lambda>b a. b * k1 + a * k2) r l])"
    using len c by (simp add: stereo_wave_def)
  moreover have "channel_sum (A2 c [map2 (\<lambda>a b. a * k1 + b * k2) l r,
                    map2 (\<lambda>b a. b * k1 + a * k2) r l]) = channel_sum w"
    unfolding sum_w using sum_rows_plus [OF len k] by (simp add: channel_sum_def)
  ultimately have part1:
    "\<exists>w'. stereo_narrowing w v = Inr w' \<and> stereo_wave w' \<and> channel_sum w' = channel_sum w"
    using narrow unfolding w by blast
  have part2:
    "\<exists>w'. stereo_widering w v = Inr w' \<and> stereo_wave w' \<and> channel_sum w' = channel_sum w"
    if v: "v \<noteq> 100"
  proof -
    have m: "m \<noteq> 0"
      unfolding m_def using v by (rule width_nonzero)
    have wide: "stereo_widering (A2 c [l, r]) v =
        Inr (A2 c [map2 (\<lambda>a b. a * p - b * q) l r, map2 (\<lambda>b a. b * p - a * q) r l])"
      by (rule widering_two_rows [OF v]) (simp_all only: p_def q_def m_def)
    have pq: "p - q = 1"
      unfolding p_def q_def by (rule width_coefficients(3) [OF m])
    have "stereo_wave (A2 c [map2 (\<lambda>a b. a * p - b * q) l r, map2 (\<lambda>b a. b * p - a * q) r l])"
      using len c by (simp add: stereo_wave_def)
    moreover have "channel_sum (A2 c [map2 (\<lambda>a b. a * p - b * q) l r,
                      map2 (\<lambda>b a. b * p - a * q) r l]) = channel_sum w"
      unfolding sum_w using sum_rows_minus [OF len pq] by (simp add: channel_sum_def)
    ultimately show ?thesis
      using wide unfolding w by blast
  qed
  from part1 part2 show ?thesis by blast
qed

theorem transforms_preserve_channel_sum_witness:
  "stereo_wave (A2 2 [[1, 2], [3, 5]]) \<and> (50::int) \<noteq> 100
   \<and> (\<exists>w'. stereo_narrowing (A2 2 [[1, 2], [3, 5]]) 50 = Inr w' \<and> stereo_wave w'
            \<and> channel_sum w' = [4, 7])
   \<and> (\<exists>w'. stereo_widering (A2 2 [[1, 2], [3, 5]]) 50 = Inr w' \<and> stereo_wave w'
            \<and> channel_sum w' = [4, 7])"
proof -
  have h: "stereo_wave (A2 2 [[1, 2], [3, 5]])"
    by (simp add: stereo_wave_def)
  have s: "channel_sum (A2 2 [[1, 2], [3, 5]]) = [4, 7]"
    by (simp add: channel_sum_def)
  show ?thesis
    using h transforms_preserve_channel_sum [OF h, of 50] unfolding s by simp
qed



section \<open>Rounding errors of the stereo transforms\<close>

lemma round_half_even_error: "\<bar>of_int (round_half_even m) - m\<bar> \<le> 1 / 2"
proof -
  have "of_int \<lfloor>m\<rfloor> \<le> m" and "m < of_int \<lfloor>m\<rfloor> + 1"
    by linarith+
  then show ?thesis
    by (auto simp: round_half_even_def Let_def)
qed

lemma quotient_of_pos:
  assumes "0 < x"
  shows "0 < fst (quotient_of x)" and "0 < snd (quotient_of x)"
    and "x = of_int (fst (quotient_of x)) / of_int (snd (quotient_of x))"
proof -
  obtain a b where q: "quotient_of x = (a, b)"
    by (cases "quotient_of x")
  have b: "0 < b"
    using quotient_of_denom_pos [OF q] .
  have x: "x = of_int a / of_int b"
    using quotient_of_div [OF q] .
  have a: "0 < a"
    using assms b unfolding x by (simp add: zero_less_divide_iff)
  have fs: "fst (quotient_of x) = a" "snd (quotient_of x) = b"
    by (simp_all add: q)
  show "0 < fst (quotient_of x)" and "0 < snd (quotient_of x)"
    and "x = of_int (fst (quotient_of x)) / of_int (snd (quotient_of x))"
    unfolding fs using a b x by blast+
qed

lemma binary_exponent_le:
  assumes "0 < x"
  shows "2 powi (binary_exponent x) \<le> x"
proof -
  let ?a = "fst (quotient_of x)" and ?b = "snd (quotient_of x)"
  let ?d = "bitlen ?a - bitlen ?b"
  show ?thesis
  proof (cases "2 powi ?d \<le> x")
    case True
    then show ?thesis by (simp add: binary_exponent_def)
  next
    case False
    then have e: "binary_exponent x = ?d - 1"
      by (simp add: binary_exponent_def)
    have a: "0 < ?a" and b: "0 < ?b" and x: "x = of_int ?a / of_int ?b"
      using quotient_of_pos [OF assms] by blast+
    have la: "1 \<le> bitlen ?a" and lb: "1 \<le> bitlen ?b"
      using a b bitlen_eq_zero_iff [of ?a] bitlen_eq_zero_iff [of ?b] bitlen_nonneg [of ?a]
        bitlen_nonneg [of ?b] by linarith+
    have "(2::int) ^ nat (bitlen ?a - 1) \<le> ?a"
      using bitlen_bounds [OF a] by simp
    then have "(of_int ((2::int) ^ nat (bitlen ?a - 1)) :: rat) \<le> of_int ?a"
      by (simp only: of_int_le_iff)
    then have low: "(2::rat) powi (bitlen ?a - 1) \<le> of_int ?a"
      using la by (simp add: power_int_def)
    have "?b < (2::int) ^ nat (bitlen ?b)"
      using bitlen_bounds [OF b] by simp
    then have "(of_int ?b :: rat) < of_int ((2::int) ^ nat (bitlen ?b))"
      by (simp only: of_int_less_iff)
    then have high: "(of_int ?b :: rat) \<le> 2 powi (bitlen ?b)"
      using lb by (simp add: power_int_def)
    have "?d - 1 = (bitlen ?a - 1) - bitlen ?b"
      by simp
    then have "(2::rat) powi (?d - 1) = 2 powi (bitlen ?a - 1) / 2 powi (bitlen ?b)"
      by (simp only: power_int_diff [of "2::rat" "bitlen ?a - 1" "bitlen ?b", simplified])
    also have "\<dots> \<le> of_int ?a / 2 powi (bitlen ?b)"
      using low by (simp add: divide_right_mono)
    also have "\<dots> \<le> of_int ?a / of_int ?b"
      using high a b by (simp add: frac_le)
    finally show ?thesis
      using x e by simp
  qed
qed

lemma fl_error: "\<bar>fl p x - x\<bar> \<le> \<bar>x\<bar> / 2 ^ p"
proof (cases "x = 0")
  case True
  then show ?thesis by (simp add: fl_def)
next
  case False
  let ?y = "\<bar>x\<bar>"
  let ?e = "binary_exponent ?y"
  let ?q = "(2::rat) powi (?e - int p + 1)"
  let ?k = "round_half_even (?y / ?q)"
  have y: "0 < ?y"
    using False by simp
  have q: "0 < ?q"
    by simp
  have fl: "fl p x = sgn x * of_int ?k * ?q"
    using False by (simp add: fl_def Let_def)
  have x: "x = sgn x * (?y / ?q) * ?q"
    using q by (simp add: sgn_mult_abs)
  have "fl p x - x = sgn x * (of_int ?k - ?y / ?q) * ?q"
    unfolding fl by (subst (2) x) (simp add: algebra_simps)
  then have "\<bar>fl p x - x\<bar> = \<bar>of_int ?k - ?y / ?q\<bar> * ?q"
    using False q by (simp add: abs_mult abs_sgn_eq)
  also have "\<dots> \<le> 1 / 2 * ?q"
    using round_half_even_error [of "?y / ?q"] q by (simp add: mult_right_mono)
  also have "1 / 2 * ?q = 2 powi ?e / 2 ^ p"
    by (simp add: power_int_diff power_int_add field_simps)
  also have "\<dots> \<le> ?y / 2 ^ p"
    using binary_exponent_le [OF y] by (simp add: divide_right_mono)
  finally show ?thesis .
qed

lemma near_exact: "near 0 \<bar>x\<bar> x x"
  by (simp add: near_def)

lemma near_weaken:
  assumes "near g T y t" and "0 \<le> g" and "g \<le> g'" and "T \<le> T'"
  shows "near g' T' y t"
proof -
  have T: "0 \<le> T"
    using assms(1) unfolding near_def by linarith
  have "g * T \<le> g' * T'"
    using assms(2,3,4) T by (simp add: mult_mono)
  then show ?thesis
    using assms(1,4) unfolding near_def by linarith
qed

lemma near_round:
  assumes r: "\<And>x. \<bar>r x - x\<bar> \<le> e * \<bar>x\<bar>" and w: "near g T y t" and e: "0 \<le> e" and g: "0 \<le> g"
  shows "near ((1 + e) * (1 + g) - 1) T (r y) t"
proof -
  have yt: "\<bar>y - t\<bar> \<le> g * T" and t: "\<bar>t\<bar> \<le> T"
    using w unfolding near_def by blast+
  have "\<bar>y\<bar> \<le> T + g * T"
    using yt t by linarith
  then have "e * \<bar>y\<bar> \<le> e * (T + g * T)"
    using e by (rule mult_left_mono)
  then have "\<bar>r y - y\<bar> \<le> e * (T + g * T)"
    using r [of y] by linarith
  then have "\<bar>r y - t\<bar> \<le> e * (T + g * T) + g * T"
    using yt by linarith
  also have "\<dots> = ((1 + e) * (1 + g) - 1) * T"
    by (simp add: algebra_simps)
  finally show ?thesis
    using t unfolding near_def by blast
qed

lemma near_mult:
  assumes w1: "near g T y t" and w2: "near h S z s" and g: "0 \<le> g" and h: "0 \<le> h"
  shows "near ((1 + g) * (1 + h) - 1) (T * S) (y * z) (t * s)"
proof -
  have yt: "\<bar>y - t\<bar> \<le> g * T" and t: "\<bar>t\<bar> \<le> T"
    using w1 unfolding near_def by blast+
  have zs: "\<bar>z - s\<bar> \<le> h * S" and s: "\<bar>s\<bar> \<le> S"
    using w2 unfolding near_def by blast+
  have T: "0 \<le> T" and S: "0 \<le> S"
    using t s by linarith+
  have z: "\<bar>z\<bar> \<le> S + h * S"
    using zs s by linarith
  have "y * z - t * s = (y - t) * z + t * (z - s)"
    by (simp add: algebra_simps)
  then have "\<bar>y * z - t * s\<bar> \<le> \<bar>y - t\<bar> * \<bar>z\<bar> + \<bar>t\<bar> * \<bar>z - s\<bar>"
    by (metis abs_mult abs_triangle_ineq)
  also have "\<dots> \<le> (g * T) * (S + h * S) + T * (h * S)"
  proof (rule add_mono)
    show "\<bar>y - t\<bar> * \<bar>z\<bar> \<le> (g * T) * (S + h * S)"
      using yt z g T by (intro mult_mono) simp_all
    show "\<bar>t\<bar> * \<bar>z - s\<bar> \<le> T * (h * S)"
      using t zs T by (intro mult_mono) simp_all
  qed
  also have "\<dots> = ((1 + g) * (1 + h) - 1) * (T * S)"
    by (simp add: algebra_simps)
  finally have 1: "\<bar>y * z - t * s\<bar> \<le> ((1 + g) * (1 + h) - 1) * (T * S)" .
  have "\<bar>t * s\<bar> \<le> T * S"
    unfolding abs_mult using t s T by (intro mult_mono) simp_all
  with 1 show ?thesis
    unfolding near_def by blast
qed

lemma near_add:
  assumes "near g T1 y1 t1" and "near g T2 y2 t2"
  shows "near g (T1 + T2) (y1 + y2) (t1 + t2)"
  using assms unfolding near_def by (simp add: algebra_simps) linarith

lemma near_diff:
  assumes "near g T1 y1 t1" and "near g T2 y2 t2"
  shows "near g (T1 + T2) (y1 - y2) (t1 - t2)"
  using assms unfolding near_def by (simp add: algebra_simps) linarith

lemma near_scale:
  assumes "near g T y t" and "0 < c"
  shows "near g (T / c) (y / c) (t / c)"
proof -
  have yt: "\<bar>y - t\<bar> \<le> g * T" and t: "\<bar>t\<bar> \<le> T"
    using assms(1) unfolding near_def by blast+
  have "\<bar>y / c - t / c\<bar> = \<bar>y - t\<bar> / c"
    using assms(2) by (simp add: diff_divide_distrib [symmetric])
  also have "\<dots> \<le> g * T / c"
    using yt assms(2) by (simp add: divide_right_mono)
  finally have 1: "\<bar>y / c - t / c\<bar> \<le> g * (T / c)"
    by simp
  have "\<bar>t / c\<bar> \<le> T / c"
    using t assms(2) by (simp add: divide_right_mono)
  with 1 show ?thesis
    unfolding near_def by blast
qed

lemma near_relative:
  assumes "near g T y t" and "T \<le> A * \<bar>t\<bar>" and "0 \<le> g"
  shows "near (g * A) \<bar>t\<bar> y t"
proof -
  have "g * T \<le> g * (A * \<bar>t\<bar>)"
    using assms(2,3) by (rule mult_left_mono)
  then show ?thesis
    using assms(1) unfolding near_def by (simp add: algebra_simps)
qed

lemma near_div:
  assumes w: "near g T y t" and zs: "\<bar>z - s\<bar> \<le> h * \<bar>s\<bar>" and s: "s \<noteq> 0"
    and g: "0 \<le> g" and h: "0 \<le> h" "h < 1"
  shows "near ((1 + g) / (1 - h) - 1) (T / \<bar>s\<bar>) (y / z) (t / s)"
proof -
  have yt: "\<bar>y - t\<bar> \<le> g * T" and t: "\<bar>t\<bar> \<le> T"
    using w unfolding near_def by blast+
  have T: "0 \<le> T"
    using t by linarith
  have sp: "0 < \<bar>s\<bar>"
    using s by simp
  have low: "(1 - h) * \<bar>s\<bar> \<le> \<bar>z\<bar>"
    using zs by (simp add: algebra_simps)
  have pos: "0 < (1 - h) * \<bar>s\<bar>"
    using h sp by simp
  then have zp: "0 < \<bar>z\<bar>" and z: "z \<noteq> 0"
    using low by auto
  have "y / z - t / s = ((y - t) * s - t * (z - s)) / (z * s)"
    using z s by (simp add: field_simps)
  then have "\<bar>y / z - t / s\<bar> = \<bar>(y - t) * s - t * (z - s)\<bar> / (\<bar>z\<bar> * \<bar>s\<bar>)"
    by (simp add: abs_mult)
  also have "\<dots> \<le> ((g * T) * \<bar>s\<bar> + T * (h * \<bar>s\<bar>)) / (\<bar>z\<bar> * \<bar>s\<bar>)"
  proof (rule divide_right_mono)
    have "\<bar>(y - t) * s - t * (z - s)\<bar> \<le> \<bar>y - t\<bar> * \<bar>s\<bar> + \<bar>t\<bar> * \<bar>z - s\<bar>"
      by (metis abs_mult abs_triangle_ineq4)
    also have "\<dots> \<le> (g * T) * \<bar>s\<bar> + T * (h * \<bar>s\<bar>)"
    proof (rule add_mono)
      show "\<bar>y - t\<bar> * \<bar>s\<bar> \<le> (g * T) * \<bar>s\<bar>"
        using yt by (simp add: mult_right_mono)
      show "\<bar>t\<bar> * \<bar>z - s\<bar> \<le> T * (h * \<bar>s\<bar>)"
        using t zs T by (intro mult_mono) simp_all
    qed
    finally show "\<bar>(y - t) * s - t * (z - s)\<bar> \<le> (g * T) * \<bar>s\<bar> + T * (h * \<bar>s\<bar>)" .
    show "0 \<le> \<bar>z\<bar> * \<bar>s\<bar>"
      by simp
  qed
  also have "\<dots> = ((g + h) * T * \<bar>s\<bar>) / (\<bar>z\<bar> * \<bar>s\<bar>)"
    by (simp add: algebra_simps)
  also have "\<dots> = (g + h) * T / \<bar>z\<bar>"
    using sp by simp
  also have "\<dots> \<le> (g + h) * T / ((1 - h) * \<bar>s\<bar>)"
    using low pos g h T zp s by (intro divide_left_mono mult_nonneg_nonneg mult_pos_pos) simp_all
  also have "\<dots> = ((1 + g) / (1 - h) - 1) * (T / \<bar>s\<bar>)"
    using h sp by (simp add: field_simps)
  finally have 1: "\<bar>y / z - t / s\<bar> \<le> ((1 + g) / (1 - h) - 1) * (T / \<bar>s\<bar>)" .
  have "\<bar>t / s\<bar> \<le> T / \<bar>s\<bar>"
    using t sp by (simp add: divide_right_mono)
  with 1 show ?thesis
    unfolding near_def by blast
qed


lemma f64_error: "\<bar>f64 x - x\<bar> \<le> 1 / 2 ^ 53 * \<bar>x\<bar>"
  using fl_error [of 53 x] by (simp add: f64_def)

lemma f32_error: "\<bar>f32 x - x\<bar> \<le> 1 / 2 ^ 24 * \<bar>x\<bar>"
  using fl_error [of 24 x] by (simp add: f32_def)

lemma f64_zero: "f64 0 = 0" and f32_zero: "f32 0 = 0"
  by (simp_all add: f64_def f32_def fl_def)

lemma f64_exact: "f64 50 = 50" "f64 1 = 1" "f64 (1 / 2) = 1 / 2"
  by code_simp+

lemma near_f64:
  assumes "near g T y t" and "0 \<le> g" and "(1 + 1 / 2 ^ 53) * (1 + g) - 1 \<le> g'"
  shows "near g' T (f64 y) t"
proof -
  have "near ((1 + 1 / 2 ^ 53) * (1 + g) - 1) T (f64 y) t"
    using f64_error assms(1) _ assms(2) by (rule near_round) simp
  moreover have "0 \<le> (1 + 1 / 2 ^ 53) * (1 + g) - 1"
    using assms(2) by (simp add: algebra_simps)
  ultimately show ?thesis
    using assms(3) by (rule near_weaken) simp
qed

lemma near_f32:
  assumes "near g T y t" and "0 \<le> g" and "(1 + 1 / 2 ^ 24) * (1 + g) - 1 \<le> g'"
  shows "near g' T (f32 y) t"
proof -
  have "near ((1 + 1 / 2 ^ 24) * (1 + g) - 1) T (f32 y) t"
    using f32_error assms(1) _ assms(2) by (rule near_round) simp
  moreover have "0 \<le> (1 + 1 / 2 ^ 24) * (1 + g) - 1"
    using assms(2) by (simp add: algebra_simps)
  ultimately show ?thesis
    using assms(3) by (rule near_weaken) simp
qed

lemma near_const: "0 \<le> g \<Longrightarrow> 0 \<le> c \<Longrightarrow> near g c c c"
  by (simp add: near_def)

text \<open>The coefficients of the narrowing, as 32-bit floats, for a width from -100 to 99.\<close>

lemma narrow_k1_near:
  fixes m :: rat
  assumes "1 \<le> m"
  shows "near (3 / 2 ^ 25) ((50 + m / 2) / 100)
           (f32 (f64 (f64 (50 + f64 (m / 2)) / 100))) ((50 + m / 2) / 100)"
proof -
  have "near 0 \<bar>m / 2\<bar> (m / 2) (m / 2)"
    by (rule near_exact)
  then have "near (1 / 2 ^ 53) \<bar>m / 2\<bar> (f64 (m / 2)) (m / 2)"
    by (rule near_f64) simp_all
  then have "near (1 / 2 ^ 53) (m / 2) (f64 (m / 2)) (m / 2)"
    using assms by simp
  then have "near (1 / 2 ^ 53) (50 + m / 2) (50 + f64 (m / 2)) (50 + m / 2)"
    using near_add [OF near_const [of "1 / 2 ^ 53" 50]] by simp
  then have "near (3 / 2 ^ 53) (50 + m / 2) (f64 (50 + f64 (m / 2))) (50 + m / 2)"
    by (rule near_f64) simp_all
  then have "near (3 / 2 ^ 53) ((50 + m / 2) / 100) (f64 (50 + f64 (m / 2)) / 100) ((50 + m / 2) / 100)"
    by (rule near_scale) simp
  then have "near (5 / 2 ^ 53) ((50 + m / 2) / 100) (f64 (f64 (50 + f64 (m / 2)) / 100)) ((50 + m / 2) / 100)"
    by (rule near_f64) simp_all
  then show ?thesis
    by (rule near_f32) simp_all
qed

lemma narrow_k2_near:
  fixes m :: rat
  assumes "1 \<le> m" and "m \<le> 200" and "1 \<le> \<bar>100 - m\<bar>"
  shows "near (3 / 2 ^ 25) \<bar>(50 - m / 2) / 100\<bar>
           (f32 (f64 (f64 (50 - f64 (m / 2)) / 100))) ((50 - m / 2) / 100)"
proof -
  have "near 0 \<bar>m / 2\<bar> (m / 2) (m / 2)"
    by (rule near_exact)
  then have "near (1 / 2 ^ 53) \<bar>m / 2\<bar> (f64 (m / 2)) (m / 2)"
    by (rule near_f64) simp_all
  then have "near (1 / 2 ^ 53) (m / 2) (f64 (m / 2)) (m / 2)"
    using assms by simp
  then have "near (1 / 2 ^ 53) (50 + m / 2) (50 - f64 (m / 2)) (50 - m / 2)"
    using near_diff [OF near_const [of "1 / 2 ^ 53" 50]] by simp
  moreover have "50 + m / 2 \<le> 300 * \<bar>50 - m / 2\<bar>"
    using assms by (simp add: abs_if split: if_splits)
  ultimately have "near (1 / 2 ^ 53 * 300) \<bar>50 - m / 2\<bar> (50 - f64 (m / 2)) (50 - m / 2)"
    by (rule near_relative) simp
  then have "near (302 / 2 ^ 53) \<bar>50 - m / 2\<bar> (f64 (50 - f64 (m / 2))) (50 - m / 2)"
    by (rule near_f64) simp_all
  then have "near (302 / 2 ^ 53) (\<bar>50 - m / 2\<bar> / 100) (f64 (50 - f64 (m / 2)) / 100) ((50 - m / 2) / 100)"
    by (rule near_scale) simp
  then have "near (304 / 2 ^ 53) (\<bar>50 - m / 2\<bar> / 100) (f64 (f64 (50 - f64 (m / 2)) / 100)) ((50 - m / 2) / 100)"
    by (rule near_f64) simp_all
  then have "near (3 / 2 ^ 25) (\<bar>50 - m / 2\<bar> / 100) (f32 (f64 (f64 (50 - f64 (m / 2)) / 100))) ((50 - m / 2) / 100)"
    by (rule near_f32) simp_all
  then show ?thesis
    by simp
qed

lemma narrow_k2_zero:
  "near (3 / 2 ^ 25) \<bar>(50 - 100 / 2) / 100\<bar> (f32 (f64 (f64 (50 - f64 (100 / 2)) / 100))) ((50 - 100 / 2) / 100)"
  by (simp add: f64_exact f64_zero f32_zero near_def)


text \<open>The coefficients of the widening.\<close>

lemma widen_n_near:
  fixes m :: rat
  assumes "1 \<le> m"
  shows "\<bar>f64 (m / 100) - m / 100\<bar> \<le> 1 / 2 ^ 53 * \<bar>m / 100\<bar>" and "m / 100 \<noteq> 0"
  using assms f64_error [of "m / 100"] by simp_all

lemma widen_half_near:
  fixes m :: rat
  assumes "1 \<le> m"
  shows "near (3 / 2 ^ 53) (m / 100 / 2) (f64 (f64 (m / 100) / 2)) (m / 100 / 2)"
proof -
  have "near 0 \<bar>m / 100\<bar> (m / 100) (m / 100)"
    by (rule near_exact)
  then have "near (1 / 2 ^ 53) \<bar>m / 100\<bar> (f64 (m / 100)) (m / 100)"
    by (rule near_f64) simp_all
  then have "near (1 / 2 ^ 53) (\<bar>m / 100\<bar> / 2) (f64 (m / 100) / 2) (m / 100 / 2)"
    by (rule near_scale) simp
  then have "near (3 / 2 ^ 53) (\<bar>m / 100\<bar> / 2) (f64 (f64 (m / 100) / 2)) (m / 100 / 2)"
    by (rule near_f64) simp_all
  then show ?thesis
    using assms by simp
qed

lemma widen_p_near:
  fixes m :: rat
  assumes "1 \<le> m"
  shows "near (3 / 2 ^ 25) ((1 / 2 + m / 100 / 2) / (m / 100))
           (f32 (f64 (f64 (1 / 2 + f64 (f64 (m / 100) / 2)) / f64 (m / 100))))
           ((1 / 2 + m / 100 / 2) / (m / 100))"
proof -
  let ?nf = "f64 (m / 100)" and ?hf = "f64 (f64 (m / 100) / 2)"
  have "near (3 / 2 ^ 53) (1 / 2 + m / 100 / 2) (1 / 2 + ?hf) (1 / 2 + m / 100 / 2)"
    using near_add [OF near_const [of "3 / 2 ^ 53" "1 / 2"] widen_half_near [OF assms]] by simp
  then have "near (5 / 2 ^ 53) (1 / 2 + m / 100 / 2) (f64 (1 / 2 + ?hf)) (1 / 2 + m / 100 / 2)"
    by (rule near_f64) simp_all
  then have "near ((1 + 5 / 2 ^ 53) / (1 - 1 / 2 ^ 53) - 1) ((1 / 2 + m / 100 / 2) / \<bar>m / 100\<bar>)
               (f64 (1 / 2 + ?hf) / ?nf) ((1 / 2 + m / 100 / 2) / (m / 100))"
    using widen_n_near [OF assms] by (rule near_div) simp_all
  then have "near ((1 + 5 / 2 ^ 53) / (1 - 1 / 2 ^ 53) - 1) ((1 / 2 + m / 100 / 2) / (m / 100))
               (f64 (1 / 2 + ?hf) / ?nf) ((1 / 2 + m / 100 / 2) / (m / 100))"
    using assms by simp
  then have "near (9 / 2 ^ 53) ((1 / 2 + m / 100 / 2) / (m / 100))
               (f64 (f64 (1 / 2 + ?hf) / ?nf)) ((1 / 2 + m / 100 / 2) / (m / 100))"
    by (rule near_f64) simp_all
  then show ?thesis
    by (rule near_f32) simp_all
qed

lemma widen_q_near:
  fixes m :: rat
  assumes "1 \<le> m" and "m \<le> 200" and "1 \<le> \<bar>100 - m\<bar>"
  shows "near (3 / 2 ^ 25) \<bar>(1 / 2 - m / 100 / 2) / (m / 100)\<bar>
           (f32 (f64 (f64 (1 / 2 - f64 (f64 (m / 100) / 2)) / f64 (m / 100))))
           ((1 / 2 - m / 100 / 2) / (m / 100))"
proof -
  let ?nf = "f64 (m / 100)" and ?hf = "f64 (f64 (m / 100) / 2)"
  have "near (3 / 2 ^ 53) (1 / 2 + m / 100 / 2) (1 / 2 - ?hf) (1 / 2 - m / 100 / 2)"
    using near_diff [OF near_const [of "3 / 2 ^ 53" "1 / 2"] widen_half_near [OF assms(1)]] by simp
  moreover have "1 / 2 + m / 100 / 2 \<le> 300 * \<bar>1 / 2 - m / 100 / 2\<bar>"
    using assms by (simp add: abs_if split: if_splits)
  ultimately have "near (3 / 2 ^ 53 * 300) \<bar>1 / 2 - m / 100 / 2\<bar> (1 / 2 - ?hf) (1 / 2 - m / 100 / 2)"
    by (rule near_relative) simp
  then have "near (902 / 2 ^ 53) \<bar>1 / 2 - m / 100 / 2\<bar> (f64 (1 / 2 - ?hf)) (1 / 2 - m / 100 / 2)"
    by (rule near_f64) simp_all
  then have "near ((1 + 902 / 2 ^ 53) / (1 - 1 / 2 ^ 53) - 1) (\<bar>1 / 2 - m / 100 / 2\<bar> / \<bar>m / 100\<bar>)
               (f64 (1 / 2 - ?hf) / ?nf) ((1 / 2 - m / 100 / 2) / (m / 100))"
    using widen_n_near [OF assms(1)] by (rule near_div) simp_all
  then have "near (906 / 2 ^ 53) (\<bar>1 / 2 - m / 100 / 2\<bar> / \<bar>m / 100\<bar>)
               (f64 (f64 (1 / 2 - ?hf) / ?nf)) ((1 / 2 - m / 100 / 2) / (m / 100))"
    by (rule near_f64) simp_all
  then have "near (3 / 2 ^ 25) (\<bar>1 / 2 - m / 100 / 2\<bar> / \<bar>m / 100\<bar>)
               (f32 (f64 (f64 (1 / 2 - ?hf) / ?nf))) ((1 / 2 - m / 100 / 2) / (m / 100))"
    by (rule near_f32) simp_all
  then show ?thesis
    by (simp only: abs_divide)
qed

lemma widen_q_zero:
  "near (3 / 2 ^ 25) \<bar>(1 / 2 - 100 / 100 / 2) / (100 / 100)\<bar>
     (f32 (f64 (f64 (1 / 2 - f64 (f64 (100 / 100) / 2)) / f64 (100 / 100))))
     ((1 / 2 - 100 / 100 / 2) / (100 / 100))"
  by (simp add: f64_exact f64_zero f32_zero near_def)

text \<open>One sample through the narrowing and the widening.\<close>

lemma near_input: "near 0 \<bar>x\<bar> x x"
  by (rule near_exact)

lemma mixed_sample_near:
  assumes K1: "near (3 / 2 ^ 25) \<bar>k1\<bar> K1 k1" and K2: "near (3 / 2 ^ 25) \<bar>k2\<bar> K2 k2"
  shows "near (702 / (100 * 2 ^ 25)) (\<bar>a\<bar> * \<bar>k1\<bar> + \<bar>b\<bar> * \<bar>k2\<bar>)
           (f32 (f32 (a * K1) + f32 (b * K2))) (a * k1 + b * k2)"
proof -
  have "near ((1 + 0) * (1 + 3 / 2 ^ 25) - 1) (\<bar>a\<bar> * \<bar>k1\<bar>) (a * K1) (a * k1)"
    using near_input K1 by (rule near_mult) simp_all
  then have 1: "near (501 / (100 * 2 ^ 25)) (\<bar>a\<bar> * \<bar>k1\<bar>) (f32 (a * K1)) (a * k1)"
    by (rule near_f32) simp_all
  have "near ((1 + 0) * (1 + 3 / 2 ^ 25) - 1) (\<bar>b\<bar> * \<bar>k2\<bar>) (b * K2) (b * k2)"
    using near_input K2 by (rule near_mult) simp_all
  then have 2: "near (501 / (100 * 2 ^ 25)) (\<bar>b\<bar> * \<bar>k2\<bar>) (f32 (b * K2)) (b * k2)"
    by (rule near_f32) simp_all
  have "near (501 / (100 * 2 ^ 25)) (\<bar>a\<bar> * \<bar>k1\<bar> + \<bar>b\<bar> * \<bar>k2\<bar>) (f32 (a * K1) + f32 (b * K2)) (a * k1 + b * k2)"
    using 1 2 by (rule near_add)
  then show ?thesis
    by (rule near_f32) simp_all
qed

lemma round_trip_sample:
  assumes K1: "near (3 / 2 ^ 25) \<bar>k1\<bar> K1 k1" and K2: "near (3 / 2 ^ 25) \<bar>k2\<bar> K2 k2"
    and P: "near (3 / 2 ^ 25) \<bar>p\<bar> P p" and Q: "near (3 / 2 ^ 25) \<bar>q\<bar> Q q"
    and one: "p * k1 - q * k2 = 1" and zero: "p * k2 - q * k1 = 0"
  shows "\<bar>f32 (f32 (f32 (f32 (a * K1) + f32 (b * K2)) * P)
             - f32 (f32 (f32 (b * K1) + f32 (a * K2)) * Q)) - a\<bar>
           \<le> 1 / 2 ^ 21 * (max \<bar>a\<bar> \<bar>b\<bar> * ((\<bar>k1\<bar> + \<bar>k2\<bar>) * (\<bar>p\<bar> + \<bar>q\<bar>)))"
proof -
  let ?L = "f32 (f32 (a * K1) + f32 (b * K2))" and ?R = "f32 (f32 (b * K1) + f32 (a * K2))"
  let ?TL = "\<bar>a\<bar> * \<bar>k1\<bar> + \<bar>b\<bar> * \<bar>k2\<bar>" and ?TR = "\<bar>b\<bar> * \<bar>k1\<bar> + \<bar>a\<bar> * \<bar>k2\<bar>"
  have L: "near (702 / (100 * 2 ^ 25)) ?TL ?L (a * k1 + b * k2)"
    using K1 K2 by (rule mixed_sample_near)
  have R: "near (702 / (100 * 2 ^ 25)) ?TR ?R (b * k1 + a * k2)"
    using K1 K2 by (rule mixed_sample_near)
  have "near ((1 + 702 / (100 * 2 ^ 25)) * (1 + 3 / 2 ^ 25) - 1) (?TL * \<bar>p\<bar>) (?L * P) ((a * k1 + b * k2) * p)"
    using L P by (rule near_mult) simp_all
  then have c: "near (1204 / (100 * 2 ^ 25)) (?TL * \<bar>p\<bar>) (f32 (?L * P)) ((a * k1 + b * k2) * p)"
    by (rule near_f32) simp_all
  have "near ((1 + 702 / (100 * 2 ^ 25)) * (1 + 3 / 2 ^ 25) - 1) (?TR * \<bar>q\<bar>) (?R * Q) ((b * k1 + a * k2) * q)"
    using R Q by (rule near_mult) simp_all
  then have d: "near (1204 / (100 * 2 ^ 25)) (?TR * \<bar>q\<bar>) (f32 (?R * Q)) ((b * k1 + a * k2) * q)"
    by (rule near_f32) simp_all
  have "near (1204 / (100 * 2 ^ 25)) (?TL * \<bar>p\<bar> + ?TR * \<bar>q\<bar>) (f32 (?L * P) - f32 (?R * Q))
          ((a * k1 + b * k2) * p - (b * k1 + a * k2) * q)"
    using c d by (rule near_diff)
  then have "near (1 / 2 ^ 21) (?TL * \<bar>p\<bar> + ?TR * \<bar>q\<bar>) (f32 (f32 (?L * P) - f32 (?R * Q)))
          ((a * k1 + b * k2) * p - (b * k1 + a * k2) * q)"
    by (rule near_f32) simp_all
  moreover have "(a * k1 + b * k2) * p - (b * k1 + a * k2) * q = a"
  proof -
    have "(a * k1 + b * k2) * p - (b * k1 + a * k2) * q = a * (p * k1 - q * k2) + b * (p * k2 - q * k1)"
      by (simp add: algebra_simps)
    then show ?thesis
      by (simp add: one zero)
  qed
  ultimately have err: "\<bar>f32 (f32 (?L * P) - f32 (?R * Q)) - a\<bar> \<le> 1 / 2 ^ 21 * (?TL * \<bar>p\<bar> + ?TR * \<bar>q\<bar>)"
    unfolding near_def by simp
  define A where "A = max \<bar>a\<bar> \<bar>b\<bar>"
  define k where "k = \<bar>k1\<bar> + \<bar>k2\<bar>"
  define pa where "pa = \<bar>p\<bar>"
  define qa where "qa = \<bar>q\<bar>"
  have a: "\<bar>a\<bar> \<le> A" and b: "\<bar>b\<bar> \<le> A"
    by (simp_all add: A_def)
  have TL: "?TL \<le> A * k"
    using mult_right_mono [OF a, of "\<bar>k1\<bar>"] mult_right_mono [OF b, of "\<bar>k2\<bar>"]
    by (simp add: algebra_simps k_def)
  have TR: "?TR \<le> A * k"
    using mult_right_mono [OF b, of "\<bar>k1\<bar>"] mult_right_mono [OF a, of "\<bar>k2\<bar>"]
    by (simp add: algebra_simps k_def)
  have "?TL * pa + ?TR * qa \<le> (A * k) * pa + (A * k) * qa"
    using mult_right_mono [OF TL, of pa] mult_right_mono [OF TR, of qa]
    by (simp add: pa_def qa_def)
  also have "\<dots> = A * (k * (pa + qa))"
    by (simp add: algebra_simps)
  finally have "1 / 2 ^ 21 * (?TL * pa + ?TR * qa) \<le> 1 / 2 ^ 21 * (A * (k * (pa + qa)))"
    by (simp add: mult_left_mono)
  with err show ?thesis
    unfolding A_def k_def pa_def qa_def by linarith
qed

section \<open>The preparation of a single-file run\<close>

lemma column_of_transposed:
  assumes "list_all (\<lambda>row. length row = n) rows" and "j < length rows"
  shows "map (\<lambda>row. row ! j) (map (\<lambda>i. map (\<lambda>row. row ! i) rows) [0..<n]) = rows ! j"
proof -
  have len: "length (rows ! j) = n"
    using assms by (simp add: list_all_length)
  have "map (\<lambda>row. row ! j) (map (\<lambda>i. map (\<lambda>row. row ! i) rows) [0..<n])
          = map (\<lambda>i. rows ! j ! i) [0..<n]"
    using assms(2) by simp
  also have "\<dots> = rows ! j"
    using len map_nth [of "rows ! j"] by simp
  finally show ?thesis .
qed

lemma transpose_padded:
  assumes "list_all (\<lambda>row. length row = n) rows"
  shows "map (\<lambda>j. map (\<lambda>row. row ! j)
                 (map (\<lambda>i. map (\<lambda>row. row ! i) rows) [0..<n]
                    @ replicate k (replicate (length rows) 0)))
           [0..<length rows]
         = map (\<lambda>row. row @ replicate k (0::rat)) rows"
proof (rule nth_equalityI)
  show "length (map (\<lambda>j. map (\<lambda>row. row ! j)
                 (map (\<lambda>i. map (\<lambda>row. row ! i) rows) [0..<n]
                    @ replicate k (replicate (length rows) 0)))
           [0..<length rows]) = length (map (\<lambda>row. row @ replicate k (0::rat)) rows)"
    by simp
next
  fix j
  assume "j < length (map (\<lambda>j. map (\<lambda>row. row ! j)
                 (map (\<lambda>i. map (\<lambda>row. row ! i) rows) [0..<n]
                    @ replicate k (replicate (length rows) (0::rat))))
           [0..<length rows])"
  then have j: "j < length rows" by simp
  show "map (\<lambda>j. map (\<lambda>row. row ! j)
                 (map (\<lambda>i. map (\<lambda>row. row ! i) rows) [0..<n]
                    @ replicate k (replicate (length rows) 0)))
           [0..<length rows] ! j = map (\<lambda>row. row @ replicate k (0::rat)) rows ! j"
    using j column_of_transposed [OF assms j] by simp
qed

lemma narrowing_2d:
  assumes "length rows = 2" and "list_all (\<lambda>row. length row = n) rows"
  shows "\<exists>rows1. stereo_narrowing (A2 n rows) v = Inr (A2 n rows1) \<and> length rows1 = 2
           \<and> list_all (\<lambda>row. length row = n) rows1"
proof -
  obtain l r where rows: "rows = [l, r]"
    using assms(1) by (auto simp: length_Suc_conv numeral_2_eq_2)
  show ?thesis
    using assms(2) unfolding rows by (simp add: Let_def)
qed

lemma prepare_2d:
  assumes load: "load w (input_file a) = Inr (A2 n rows, sr)"
    and rect: "list_all (\<lambda>row. length row = n) rows"
  shows "\<exists>rows1. length rows1 = length rows \<and> list_all (\<lambda>row. length row = n) rows1
           \<and> (if arg_stereo_narrowing a \<noteq> 0 \<and> length rows = 2
               then stereo_narrowing (A2 n rows) (arg_stereo_narrowing a)
               else Inr (A2 n rows)) = Inr (A2 n rows1)
           \<and> prepare w a =
               Inr (A2 (length rows)
                      (map (\<lambda>j. map (\<lambda>row. row ! j) rows1) [0..<n]
                         @ replicate (5 * sr) (replicate (length rows) 0)),
                    sr, length rows = 2, n)"
proof -
  obtain rows1 where n1: "(if arg_stereo_narrowing a \<noteq> 0 \<and> length rows = 2
               then stereo_narrowing (A2 n rows) (arg_stereo_narrowing a)
               else Inr (A2 n rows)) = Inr (A2 n rows1)"
    and l1: "length rows1 = length rows" and r1: "list_all (\<lambda>row. length row = n) rows1"
    using narrowing_2d [OF _ rect, of "arg_stereo_narrowing a"] rect
    by (cases "arg_stereo_narrowing a \<noteq> 0 \<and> length rows = 2") auto
  have "prepare w a =
               Inr (A2 (length rows)
                      (map (\<lambda>j. map (\<lambda>row. row ! j) rows1) [0..<n]
                         @ replicate (5 * sr) (replicate (length rows) 0)),
                    sr, length rows = 2, n)"
    unfolding prepare_def load using n1 l1
    by (simp add: shape_at_def vstack_def zeros_def)
  with n1 l1 r1 show ?thesis by blast
qed

lemma widering_2d:
  "stereo_widering (A2 c rows) v = Inr x \<Longrightarrow> \<exists>rows'. x = A2 c rows' \<and> length rows' = length rows"
  by (auto simp: Let_def py_div_def split: if_splits sum.splits)

lemma two_axes:
  "shape stem = [r, c] \<Longrightarrow> \<exists>rows. stem = A2 c rows \<and> length rows = r"
  by (cases stem) auto

lemma ensure_store_dir_written:
  "ensure_store_dir w a s = Inr s1 \<Longrightarrow> written s1 = written s \<and> sleeps s1 = sleeps s \<and> printed s1 = printed s"
  by (auto simp: ensure_store_dir_def split: if_splits option.splits)

lemma shape_scale_nd: "shape (scale_nd k m) = shape m"
  by (cases m) auto

lemmas demo_run_defs = run_single_file_def separate_and_write_def ensure_store_dir_def prepare_def
  shape_at_def vstack_def zeros_def separate_def active_instruments_def sf_write_def
  py_div_def Let_def sleep_def print_def init_state_def out_name_def basename_def
  demo_env_def demo_args_def demo_config_def demo_engine_def

section \<open>The existence check of a single-file run\<close>

lemma write_stems_sleeps:
  "sleeps (snd (write_stems a sr st n instrs res s)) = sleeps s"
  by (induction instrs arbitrary: res s)
     (auto simp: sf_write_def split: option.splits sum.splits)

lemma separate_and_write_sleeps:
  "sleeps (snd (separate_and_write w a cfg s)) = sleeps s"
  by (auto simp: separate_and_write_def print_def write_stems_sleeps
           dest: ensure_store_dir_written split: sum.splits)

text \<open>
  Claim C8. When the input file is missing at the first check, a single-file run sleeps
  one second exactly once and checks again. If the file is still missing, the run prints
  its message and returns, with no file written and no exception; if the file is there,
  the run goes on as if it had been there at once, and never sleeps or checks again.
\<close>

theorem missing_input_one_retry:
  assumes "\<not> isfile w (input_file a) (sum_list (sleeps s))"
  shows "sleeps (snd (run_single_file w a cfg s)) = sleeps s @ [1]
       \<and> run_single_file w a cfg s =
           (if isfile w (input_file a) (sum_list (sleeps s) + 1)
            then separate_and_write w a cfg (s\<lparr>sleeps := sleeps s @ [1]\<rparr>)
            else (Returned, s\<lparr>sleeps := sleeps s @ [1], printed := printed s @ [InputFileMissing]\<rparr>))"
  using assms
  by (simp add: run_single_file_def Let_def sleep_def print_def separate_and_write_sleeps)

theorem missing_input_one_retry_witness:
  "isfile demo_env ''in/nope.mp3'' 0 = False
   \<and> run_single_file demo_env (demo_args\<lparr>input_file := ''in/nope.mp3''\<rparr>) demo_config init_state
       = (Returned, \<lparr>sleeps = [1], printed = [InputFileMissing], written = [], dirs_made = []\<rparr>)
   \<and> isfile demo_env ''in/late.mp3'' 0 = False
   \<and> sleeps (snd (run_single_file demo_env (demo_args\<lparr>input_file := ''in/late.mp3''\<rparr>)
                      demo_config init_state)) = [1]
   \<and> run_single_file demo_env (demo_args\<lparr>input_file := ''in/late.mp3''\<rparr>) demo_config init_state
       = separate_and_write demo_env (demo_args\<lparr>input_file := ''in/late.mp3''\<rparr>) demo_config
           \<lparr>sleeps = [1], printed = [], written = [], dirs_made = []\<rparr>"
proof -
  have nope: "\<not> isfile demo_env (input_file (demo_args\<lparr>input_file := ''in/nope.mp3''\<rparr>))
                 (sum_list (sleeps init_state))"
    by (simp add: demo_env_def init_state_def)
  have late: "\<not> isfile demo_env (input_file (demo_args\<lparr>input_file := ''in/late.mp3''\<rparr>))
                 (sum_list (sleeps init_state))"
    by (simp add: demo_env_def init_state_def)
  have again: "isfile demo_env ''in/late.mp3'' 1" and never: "\<not> isfile demo_env ''in/nope.mp3'' 1"
    by (simp_all add: demo_env_def)
  show ?thesis
    using missing_input_one_retry [OF nope, of demo_config]
          missing_input_one_retry [OF late, of demo_config] nope late again never
    by (simp add: init_state_def separate_and_write_sleeps)
qed

section \<open>Mono input in a single-file run\<close>

lemma prepare_mono:
  assumes "load w (input_file a) = Inr (A1 xs, sr)"
  shows "prepare w a = Inl IndexError"
proof (cases "arg_stereo_narrowing a \<noteq> 0 \<and> length xs = 2")
  case True
  then show ?thesis
    using assms by (simp add: prepare_def shape_at_def Let_def)
next
  case False
  then show ?thesis
    using assms by (auto simp: prepare_def shape_at_def)
qed

text \<open>
  Claim C3. A mono file, which the decoder returns as a one-axis array, is not duplicated
  into two channels by a single-file run: \<open>mix.shape[1]\<close> raises inside the
  \<^verbatim>\<open>try\<close> block before the mono check is reached, and the run reports the file as
  unreadable and writes nothing.
\<close>

theorem single_file_run_rejects_mono:
  "load demo_env ''in/mono.wav'' = Inr (A1 [1 / 2, 1 / 4], 44100)
   \<and> run_single_file demo_env (demo_args\<lparr>input_file := ''in/mono.wav''\<rparr>) demo_config init_state
       = (Returned, \<lparr>sleeps = [], printed = [CanReadTrack ''in/mono.wav'', ErrorMessage IndexError],
                     written = [], dirs_made = [''out'']\<rparr>)"
  by (simp add: demo_run_defs)

section \<open>Names of the written files\<close>

text \<open>
  Claim C7. The last four characters of the base name are dropped, whatever the
  extension is: for \<open>in/song.flac\<close> the stems are written to \<open>out/song._vocals.wav\<close> and
  \<open>out/song._other.wav\<close>, not to \<open>out/song_vocals.wav\<close> and \<open>out/song_other.wav\<close>.
\<close>

theorem four_letter_extension_name:
  "out_name ''out'' ''in/song.flac'' ''vocals'' = ''out/song._vocals.wav''
   \<and> map fst (written (snd (run_single_file demo_env (demo_args\<lparr>input_file := ''in/song.flac''\<rparr>)
                              demo_config init_state)))
       = [''out/song._vocals.wav'', ''out/song._other.wav'']"
  by (simp add: demo_run_defs)

lemma basename_after_slash:
  "CHR ''/'' \<notin> set name \<Longrightarrow> basename (dir @ ''/'' @ name) = name"
proof -
  assume name: "CHR ''/'' \<notin> set name"
  have "takeWhile (\<lambda>ch. ch \<noteq> CHR ''/'') (rev name @ CHR ''/'' # rev dir)
          = takeWhile (\<lambda>ch. ch \<noteq> CHR ''/'') (rev name)"
    by (rule takeWhile_tail) simp
  also have "\<dots> = rev name"
    using name by auto
  finally show ?thesis
    by (simp add: basename_def)
qed

lemma three_letter_extension_name:
  assumes "CHR ''/'' \<notin> set stem" and "CHR ''/'' \<notin> set ext" and "length ext = 3"
  shows "out_name out (dir @ ''/'' @ stem @ ''.'' @ ext) instr = out @ ''/'' @ stem @ ''_'' @ instr @ ''.wav''"
proof -
  have "basename (dir @ ''/'' @ stem @ ''.'' @ ext) = stem @ ''.'' @ ext"
    using assms(1,2) basename_after_slash [of "stem @ ''.'' @ ext" dir] by simp
  then show ?thesis
    using assms(3) by (simp add: out_name_def)
qed

section \<open>The degenerate width\<close>

text \<open>
  Claim C2, as the code has it. The value 100 is accepted at configuration time like any
  other integer. In a single-file run on a two-channel file, with a first instrument
  whose stem the separation returns with at least one channel, the division by zero of
  the widening is reached after the separation: the run ends with ZeroDivisionError and
  no file written. No other value makes the widening divide by zero.
\<close>

theorem degenerate_width_reaches_widening:
  assumes "opt_stereo_narrowing c = Some 100"
    and "isfile w (opt_input_file c) 0"
    and "ensure_store_dir w (parse_args c) init_state = Inr s1"
    and "load w (opt_input_file c) = Inr (A2 n [l, r], sr)"
    and "active_instruments cfg = i # rest"
    and "\<forall>k rows. length rows = 2 \<longrightarrow>
           (\<exists>res k' rows'. separate w (parse_args c) (A2 k rows) = Inr res
              \<and> res i = Some (A2 k' rows') \<and> rows' \<noteq> [])"
  shows "arg_stereo_narrowing (parse_args c) = 100
       \<and> proc_single_file w c cfg = (Raised ZeroDivisionError, s1)
       \<and> (\<forall>x v. stereo_widering x v = Inl ZeroDivisionError \<longrightarrow> v = 100)"
proof -
  let ?a = "parse_args c"
  have v: "arg_stereo_narrowing ?a = 100" and f: "input_file ?a = opt_input_file c"
    using assms(1) by (simp_all add: parse_args_def)
  obtain cols where prep: "prepare w ?a = Inr (A2 2 cols, sr, True, n)"
    using assms(4) v f by (simp add: prepare_def shape_at_def vstack_def zeros_def Let_def)
  let ?padded = "A2 2 cols"
  have "\<exists>k' rows'. transpose_nd (mono_to_stereo ?padded) = A2 k' rows' \<and> length rows' = 2"
    by simp
  then obtain res k rows where sep: "separate w ?a (transpose_nd (mono_to_stereo ?padded)) = Inr res"
    and stem: "res i = Some (A2 k rows)" and rows: "rows \<noteq> []"
    using assms(6) by metis
  have wide: "stereo_widering (A2 (min k n) (map (take n) rows)) 100 = Inl ZeroDivisionError"
    using rows by (simp add: py_div_def)
  have "write_stems ?a sr True n (i # rest) res s1 = (Raised ZeroDivisionError, s1)"
    using stem wide v by simp
  then have run: "proc_single_file w c cfg = (Raised ZeroDivisionError, s1)"
    using assms(2,3,5) prep sep f
    by (simp add: proc_single_file_def run_single_file_def separate_and_write_def init_state_def)
  have only: "\<forall>x v. stereo_widering x v = Inl ZeroDivisionError \<longrightarrow> v = 100"
  proof (intro allI impI)
    fix x v
    assume "stereo_widering x v = Inl ZeroDivisionError"
    then show "v = 100"
      by (cases x) (auto simp: Let_def py_div_def split: if_splits)
  qed
  from v run only show ?thesis by blast
qed

theorem degenerate_width_reaches_widening_witness:
  "opt_stereo_narrowing demo_cli = Some 100
   \<and> isfile demo_env (opt_input_file demo_cli) 0
   \<and> load demo_env (opt_input_file demo_cli) = Inr (A2 3 [[1, 2, 3], [4, 5, 6]], 44100)
   \<and> active_instruments demo_config = [''vocals'', ''other'']
   \<and> arg_stereo_narrowing (parse_args demo_cli) = 100
   \<and> fst (proc_single_file demo_env demo_cli demo_config) = Raised ZeroDivisionError
   \<and> written (snd (proc_single_file demo_env demo_cli demo_config)) = []"
proof -
  have h1: "opt_stereo_narrowing demo_cli = Some 100"
    by (simp add: demo_cli_def)
  have h2: "isfile demo_env (opt_input_file demo_cli) 0"
    by (simp add: demo_cli_def demo_env_def)
  have h3: "ensure_store_dir demo_env (parse_args demo_cli) init_state
              = Inr (init_state\<lparr>dirs_made := [''out'']\<rparr>)"
    by (simp add: ensure_store_dir_def demo_env_def demo_cli_def parse_args_def init_state_def)
  have h4: "load demo_env (opt_input_file demo_cli) = Inr (A2 3 [[1, 2, 3], [4, 5, 6]], 44100)"
    by (simp add: demo_cli_def demo_env_def)
  have h5: "active_instruments demo_config = ''vocals'' # [''other'']"
    by (simp add: active_instruments_def demo_config_def)
  have h6: "\<forall>k rows. length rows = 2 \<longrightarrow>
           (\<exists>res k' rows'. separate demo_env (parse_args demo_cli) (A2 k rows) = Inr res
              \<and> res ''vocals'' = Some (A2 k' rows') \<and> rows' \<noteq> [])"
    by (auto simp: separate_def parse_args_def demo_cli_def demo_env_def demo_engine_def)
  show ?thesis
    using h1 h2 h4 degenerate_width_reaches_widening [OF h1 h2 h3 h4 h5 h6]
    by (simp add: active_instruments_def demo_config_def init_state_def)
qed

text \<open>
  Claim C2 as stated fails: the command line of the example world asks for the width
  100, the run begins, makes the output directory, separates, and ends with the division
  by zero.
\<close>

theorem degenerate_width_accepted:
  "arg_stereo_narrowing (parse_args demo_cli) = 100
   \<and> proc_single_file demo_env demo_cli demo_config
       = (Raised ZeroDivisionError,
          \<lparr>sleeps = [], printed = [], written = [], dirs_made = [''out'']\<rparr>)"
  by (simp add: demo_run_defs demo_cli_def proc_single_file_def parse_args_def)



section \<open>The batch loop\<close>

lemma write_folder_stems_all:
  assumes "\<forall>i\<in>set instrs. res i = Some (stems i)"
  shows "write_folder_stems a path sr instrs res s =
           (Returned, s\<lparr>written := written s
              @ map (\<lambda>i. (out_name (store_dir a) path i, transpose_nd (stems i), sr)) instrs\<rparr>)"
  using assms
proof (induction instrs arbitrary: s)
  case Nil
  then show ?case by simp
next
  case (Cons i rest)
  then show ?case by (simp add: sf_write_def)
qed

lemma folder_mix_rows:
  "\<exists>c rows. folder_mix loaded = A2 c rows \<and> list_all (\<lambda>row. length row = c) rows"
  by (cases loaded) (auto simp: folder_mix_def list_all_iff)

lemma stretch_same: "length xs = n \<Longrightarrow> stretch n xs = xs"
  by (simp add: stretch_def)

lemma subtract_same_shape:
  assumes "length rows' = length rows"
  shows "subtract_nd (A2 c rows) (A2 c rows') =
           Inr (A2 c (map2 (\<lambda>x y. map2 (-) (stretch c x) (stretch c y)) rows rows'))"
  using assms by (simp add: subtract_rows_def bdim_def stretch_same)

lemma subtract_transposed:
  assumes mix: "list_all (\<lambda>row. length row = c) rows"
    and voc: "length vrows = c" "list_all (\<lambda>row. length row = length rows) vrows"
  shows "\<exists>diff. subtract_nd (A2 c rows) (transpose_nd (A2 (length rows) vrows)) = Inr diff
           \<and> shape diff = [length rows, c]
           \<and> (\<forall>i<length rows. \<forall>j<c. entry diff i j = rows ! i ! j - vrows ! j ! i)"
proof -
  let ?t = "map (\<lambda>j. map (\<lambda>row. row ! j) vrows) [0..<length rows]"
  let ?d = "map2 (\<lambda>x y. map2 (-) (stretch c x) (stretch c y)) rows ?t"
  have sub: "subtract_nd (A2 c rows) (transpose_nd (A2 (length rows) vrows)) = Inr (A2 c ?d)"
    using voc(1) subtract_same_shape [of ?t rows c] by simp
  have ent: "entry (A2 c ?d) i j = rows ! i ! j - vrows ! j ! i" if i: "i < length rows" and j: "j < c" for i j
  proof -
    have ri: "length (rows ! i) = c"
      using mix i by (simp add: list_all_length)
    have ti: "?t ! i = map (\<lambda>row. row ! i) vrows"
      using i by simp
    have "?d ! i = map2 (-) (rows ! i) (map (\<lambda>row. row ! i) vrows)"
      using i ri voc(1) ti by (simp add: stretch_same)
    then show ?thesis
      using j ri voc(1) by simp
  qed
  have "shape (A2 c ?d) = [length rows, c]"
    by simp
  with sub ent show ?thesis by blast
qed

lemma folder_track_readable:
  assumes load: "load w path = Inr (loaded, sr)"
    and sep: "separate w a (transpose_nd (folder_mix loaded)) = Inr res"
    and all: "\<forall>i\<in>set instrs. res i = Some (stems i)"
  shows "folder_track w a instrs path s =
           write_instrumental a path sr instrs (folder_mix loaded) res
             (s\<lparr>written := written s
                @ map (\<lambda>i. (out_name (store_dir a) path i, transpose_nd (stems i), sr)) instrs\<rparr>)"
  by (simp add: folder_track_def load sep write_folder_stems_all [OF all])

lemma write_instrumental_written:
  "\<exists>extra. written (snd (write_instrumental a path sr instrs mix res s)) = written s @ extra
      \<and> (extra = [] \<or> (\<exists>d. extra = [(out_name (store_dir a) path ''instrumental'', d, sr)]))"
  by (auto simp: write_instrumental_def sf_write_def split: option.splits sum.splits)

lemma instrumental_aligned:
  assumes flag: "''vocals'' \<in> set instrs" "extract_instrumental a"
    and voc: "res ''vocals'' = Some vocals"
    and shape: "shape vocals = shape (transpose_nd (folder_mix loaded))"
    and rect: "rectangular vocals"
  shows "\<exists>diff. write_instrumental a path sr instrs (folder_mix loaded) res s
             = (Returned, sf_write (out_name (store_dir a) path ''instrumental'') diff sr s)
           \<and> shape diff = shape (folder_mix loaded)
           \<and> (\<forall>i<dim0 (folder_mix loaded). \<forall>j<shape (folder_mix loaded) ! 1.
                 entry diff i j = entry (folder_mix loaded) i j - entry vocals j i)"
proof -
  obtain c rows where mix: "folder_mix loaded = A2 c rows"
    and mrect: "list_all (\<lambda>row. length row = c) rows"
    using folder_mix_rows by blast
  have "shape vocals = [c, length rows]"
    using shape by (simp add: mix)
  then obtain vrows where v: "vocals = A2 (length rows) vrows" and vl: "length vrows = c"
    using two_axes by blast
  have vrect: "list_all (\<lambda>row. length row = length rows) vrows"
    using rect by (simp add: v)
  obtain diff where sub: "subtract_nd (A2 c rows) (transpose_nd (A2 (length rows) vrows)) = Inr diff"
    and sh: "shape diff = [length rows, c]"
    and ent: "\<forall>i<length rows. \<forall>j<c. entry diff i j = rows ! i ! j - vrows ! j ! i"
    using subtract_transposed [OF mrect vl vrect] by blast
  have "write_instrumental a path sr instrs (folder_mix loaded) res s
             = (Returned, sf_write (out_name (store_dir a) path ''instrumental'') diff sr s)"
    using flag voc sub by (simp add: write_instrumental_def mix v)
  moreover have "shape diff = shape (folder_mix loaded)"
    using sh by (simp add: mix)
  moreover have "\<forall>i<dim0 (folder_mix loaded). \<forall>j<shape (folder_mix loaded) ! 1.
                 entry diff i j = entry (folder_mix loaded) i j - entry vocals j i"
    using ent by (simp add: mix v)
  ultimately show ?thesis by blast
qed


lemma folder_track_contract:
  assumes "\<forall>loaded sr. load w p = Inr (loaded, sr) \<longrightarrow>
             (\<exists>res. separate w a (transpose_nd (folder_mix loaded)) = Inr res
                \<and> (\<forall>i\<in>set instrs. \<exists>stem. res i = Some stem
                       \<and> shape stem = shape (transpose_nd (folder_mix loaded)) \<and> rectangular stem))"
  shows "\<exists>new. folder_track w a instrs p s =
            (Returned, s\<lparr>printed := printed s
                            @ (case load w p of Inl e \<Rightarrow> [CanReadTrack p, ErrorMessage e] | Inr x \<Rightarrow> []),
                          written := written s @ new\<rparr>)
          \<and> map fst new =
              (case load w p of
                 Inl e \<Rightarrow> []
               | Inr x \<Rightarrow> map (out_name (store_dir a) p)
                          (instrs @ (if ''vocals'' \<in> set instrs \<and> extract_instrumental a
                                     then [''instrumental''] else [])))"
proof (cases "load w p")
  case (Inl e)
  then show ?thesis
    by (simp add: folder_track_def print_def)
next
  case (Inr x)
  obtain loaded sr where x: "x = (loaded, sr)"
    by (cases x)
  have load: "load w p = Inr (loaded, sr)"
    using Inr x by simp
  obtain res where sep: "separate w a (transpose_nd (folder_mix loaded)) = Inr res"
    and stems: "\<forall>i\<in>set instrs. \<exists>stem. res i = Some stem
                       \<and> shape stem = shape (transpose_nd (folder_mix loaded)) \<and> rectangular stem"
    using assms load by blast
  have all: "\<forall>i\<in>set instrs. res i = Some (the (res i))"
    using stems by auto
  let ?s1 = "s\<lparr>written := written s
                @ map (\<lambda>i. (out_name (store_dir a) p i, transpose_nd (the (res i)), sr)) instrs\<rparr>"
  have track: "folder_track w a instrs p s
                 = write_instrumental a p sr instrs (folder_mix loaded) res ?s1"
    by (rule folder_track_readable [OF load sep all])
  show ?thesis
  proof (cases "''vocals'' \<in> set instrs \<and> extract_instrumental a")
    case False
    then have "write_instrumental a p sr instrs (folder_mix loaded) res ?s1 = (Returned, ?s1)"
      by (auto simp: write_instrumental_def)
    then show ?thesis
      using track load False by (auto simp: comp_def)
  next
    case True
    then have f1: "''vocals'' \<in> set instrs" and f2: "extract_instrumental a"
      by simp_all
    from f1 obtain vocals where v: "res ''vocals'' = Some vocals"
      and vs: "shape vocals = shape (transpose_nd (folder_mix loaded))" and vr: "rectangular vocals"
      using stems by blast
    obtain diff where "write_instrumental a p sr instrs (folder_mix loaded) res ?s1
             = (Returned, sf_write (out_name (store_dir a) p ''instrumental'') diff sr ?s1)"
      using instrumental_aligned [where res = res and vocals = vocals and loaded = loaded
          and instrs = instrs and a = a and path = p and sr = sr and s = ?s1] f1 f2 v vs vr
      by blast
    then show ?thesis
      using track load True by (auto simp: comp_def sf_write_def)
  qed
qed


lemma folder_loop_contract:
  assumes "\<forall>p\<in>set paths. \<forall>loaded sr. load w p = Inr (loaded, sr) \<longrightarrow>
             (\<exists>res. separate w a (transpose_nd (folder_mix loaded)) = Inr res
                \<and> (\<forall>i\<in>set instrs. \<exists>stem. res i = Some stem
                       \<and> shape stem = shape (transpose_nd (folder_mix loaded)) \<and> rectangular stem))"
  shows "\<exists>new. folder_loop w a instrs paths s =
            (Returned, s\<lparr>printed := printed s
                            @ concat (map (\<lambda>p. case load w p of
                                                  Inl e \<Rightarrow> [CanReadTrack p, ErrorMessage e]
                                                | Inr x \<Rightarrow> []) paths),
                          written := written s @ new\<rparr>)
          \<and> map fst new =
              concat (map (\<lambda>p. case load w p of
                                  Inl e \<Rightarrow> []
                                | Inr x \<Rightarrow> map (out_name (store_dir a) p)
                                    (instrs @ (if ''vocals'' \<in> set instrs \<and> extract_instrumental a
                                               then [''instrumental''] else []))) paths)"
  using assms
proof (induction paths arbitrary: s)
  case Nil
  then show ?case by simp
next
  case (Cons p rest)
  let ?log = "\<lambda>p. case load w p of Inl e \<Rightarrow> [CanReadTrack p, ErrorMessage e] | Inr x \<Rightarrow> []"
  let ?names = "\<lambda>p. case load w p of
                                  Inl e \<Rightarrow> []
                                | Inr x \<Rightarrow> map (out_name (store_dir a) p)
                                    (instrs @ (if ''vocals'' \<in> set instrs \<and> extract_instrumental a
                                               then [''instrumental''] else []))"
  have here: "\<forall>loaded sr. load w p = Inr (loaded, sr) \<longrightarrow>
             (\<exists>res. separate w a (transpose_nd (folder_mix loaded)) = Inr res
                \<and> (\<forall>i\<in>set instrs. \<exists>stem. res i = Some stem
                       \<and> shape stem = shape (transpose_nd (folder_mix loaded)) \<and> rectangular stem))"
    using Cons.prems by simp
  obtain new1 where t: "folder_track w a instrs p s =
            (Returned, s\<lparr>printed := printed s @ ?log p, written := written s @ new1\<rparr>)"
    and n1: "map fst new1 = ?names p"
    using folder_track_contract [OF here, of s] by blast
  let ?s1 = "s\<lparr>printed := printed s @ ?log p, written := written s @ new1\<rparr>"
  have rest: "\<forall>p\<in>set rest. \<forall>loaded sr. load w p = Inr (loaded, sr) \<longrightarrow>
             (\<exists>res. separate w a (transpose_nd (folder_mix loaded)) = Inr res
                \<and> (\<forall>i\<in>set instrs. \<exists>stem. res i = Some stem
                       \<and> shape stem = shape (transpose_nd (folder_mix loaded)) \<and> rectangular stem))"
    using Cons.prems by simp
  obtain new2 where l: "folder_loop w a instrs rest ?s1 =
            (Returned, ?s1\<lparr>printed := printed ?s1 @ concat (map ?log rest),
                          written := written ?s1 @ new2\<rparr>)"
    and n2: "map fst new2 = concat (map ?names rest)"
    using Cons.IH [OF rest, of ?s1] by blast
  have "folder_loop w a instrs (p # rest) s =
          (Returned, s\<lparr>printed := printed s @ concat (map ?log (p # rest)),
                        written := written s @ (new1 @ new2)\<rparr>)"
    using t l by simp
  moreover have "map fst (new1 @ new2) = concat (map ?names (p # rest))"
    using n1 n2 by simp
  ultimately show ?case by blast
qed

lemma ensure_store_dir_ok:
  assumes "isdir w (store_dir a) \<or> mkdir w (store_dir a) = None"
  shows "\<exists>s1. ensure_store_dir w a s = Inr s1 \<and> printed s1 = printed s
           \<and> written s1 = written s \<and> sleeps s1 = sleeps s"
proof (cases "isdir w (store_dir a)")
  case True
  then show ?thesis by (simp add: ensure_store_dir_def)
next
  case False
  then have "mkdir w (store_dir a) = None"
    using assms by simp
  then show ?thesis
    using False by (simp add: ensure_store_dir_def)
qed

text \<open>
  Claim C6. In a batch run whose output directory exists or can be made, and whose
  separation returns, for every file that loads, a stem of the mixture's shape for every
  instrument: the call returns without an exception; every file that fails to load is
  reported by its two lines and skipped; and every file that loads gets all its stems
  written, in the order of the enumeration.
\<close>

theorem batch_fault_isolation:
  assumes dir: "isdir w (store_dir a) \<or> mkdir w (store_dir a) = None"
    and contract: "\<forall>p\<in>set (glob w (input_folder a @ ''/*.*'')). \<forall>loaded sr.
           load w p = Inr (loaded, sr) \<longrightarrow>
             (\<exists>res. separate w a (transpose_nd (folder_mix loaded)) = Inr res
                \<and> (\<forall>i\<in>set (active_instruments cfg). \<exists>stem. res i = Some stem
                       \<and> shape stem = shape (transpose_nd (folder_mix loaded)) \<and> rectangular stem))"
  shows "fst (run_folder w a cfg s) = Returned
       \<and> printed (snd (run_folder w a cfg s)) =
           printed s @ [TotalFilesFound (length (glob w (input_folder a @ ''/*.*'')))]
             @ concat (map (\<lambda>p. case load w p of
                                   Inl e \<Rightarrow> [CanReadTrack p, ErrorMessage e]
                                 | Inr x \<Rightarrow> []) (glob w (input_folder a @ ''/*.*'')))
             @ [ElapsedTime]
       \<and> map fst (written (snd (run_folder w a cfg s))) =
           map fst (written s)
             @ concat (map (\<lambda>p. case load w p of
                                   Inl e \<Rightarrow> []
                                 | Inr x \<Rightarrow> map (out_name (store_dir a) p)
                                     (active_instruments cfg
                                        @ (if ''vocals'' \<in> set (active_instruments cfg)
                                              \<and> extract_instrumental a
                                           then [''instrumental''] else [])))
                        (glob w (input_folder a @ ''/*.*'')))"
proof -
  let ?paths = "glob w (input_folder a @ ''/*.*'')"
  let ?s1 = "print [TotalFilesFound (length ?paths)] s"
  obtain s2 where d: "ensure_store_dir w a ?s1 = Inr s2"
    and p2: "printed s2 = printed ?s1" and w2: "written s2 = written ?s1"
    using ensure_store_dir_ok [OF dir, of ?s1] by blast
  obtain new where loop: "folder_loop w a (active_instruments cfg) ?paths s2 =
            (Returned, s2\<lparr>printed := printed s2
                            @ concat (map (\<lambda>p. case load w p of
                                                  Inl e \<Rightarrow> [CanReadTrack p, ErrorMessage e]
                                                | Inr x \<Rightarrow> []) ?paths),
                          written := written s2 @ new\<rparr>)"
    and names: "map fst new =
              concat (map (\<lambda>p. case load w p of
                                  Inl e \<Rightarrow> []
                                | Inr x \<Rightarrow> map (out_name (store_dir a) p)
                                    (active_instruments cfg
                                       @ (if ''vocals'' \<in> set (active_instruments cfg)
                                             \<and> extract_instrumental a
                                          then [''instrumental''] else []))) ?paths)"
    using folder_loop_contract [OF contract, of s2] by blast
  show ?thesis
    using d loop names p2 w2
    by (simp add: run_folder_def Let_def print_def sleep_def)
qed


lemma rectangular_transposed_mix: "rectangular (transpose_nd (folder_mix loaded))"
  by (cases loaded) (auto simp: folder_mix_def list_all_iff)

lemma rectangular_scale_nd: "rectangular m \<Longrightarrow> rectangular (scale_nd k m)"
  by (cases m) (auto simp: list_all_iff)

lemma demo_engine_contract:
  "\<exists>res. separate demo_env demo_args (transpose_nd (folder_mix loaded)) = Inr res
     \<and> (\<forall>i\<in>set (active_instruments demo_config). \<exists>stem. res i = Some stem
            \<and> shape stem = shape (transpose_nd (folder_mix loaded)) \<and> rectangular stem)"
  using rectangular_scale_nd [OF rectangular_transposed_mix]
  by (simp add: separate_def demo_env_def demo_args_def demo_engine_def demo_config_def
        active_instruments_def shape_scale_nd)

theorem batch_fault_isolation_witness:
  "mkdir demo_env (store_dir demo_args) = None
   \<and> glob demo_env (input_folder demo_args @ ''/*.*'')
       = [''in/song.mp3'', ''in/bad.mp3'', ''in/song.flac'', ''in/mono.wav'']
   \<and> load demo_env ''in/bad.mp3'' = Inl (LibraryError ''decoding failed'')
   \<and> fst (run_folder demo_env demo_args demo_config init_state) = Returned
   \<and> printed (snd (run_folder demo_env demo_args demo_config init_state))
       = [TotalFilesFound 4, CanReadTrack ''in/bad.mp3'',
          ErrorMessage (LibraryError ''decoding failed''), ElapsedTime]
   \<and> map fst (written (snd (run_folder demo_env demo_args demo_config init_state)))
       = [''out/song_vocals.wav'', ''out/song_other.wav'', ''out/song_instrumental.wav'',
          ''out/song._vocals.wav'', ''out/song._other.wav'', ''out/song._instrumental.wav'',
          ''out/mono_vocals.wav'', ''out/mono_other.wav'', ''out/mono_instrumental.wav'']"
proof -
  have dir: "isdir demo_env (store_dir demo_args) \<or> mkdir demo_env (store_dir demo_args) = None"
    by (simp add: demo_env_def)
  have contract: "\<forall>p\<in>set (glob demo_env (input_folder demo_args @ ''/*.*'')). \<forall>loaded sr.
           load demo_env p = Inr (loaded, sr) \<longrightarrow>
             (\<exists>res. separate demo_env demo_args (transpose_nd (folder_mix loaded)) = Inr res
                \<and> (\<forall>i\<in>set (active_instruments demo_config). \<exists>stem. res i = Some stem
                       \<and> shape stem = shape (transpose_nd (folder_mix loaded)) \<and> rectangular stem))"
    using demo_engine_contract by blast
  have paths: "glob demo_env (input_folder demo_args @ ''/*.*'')
       = [''in/song.mp3'', ''in/bad.mp3'', ''in/song.flac'', ''in/mono.wav'']"
    by (simp add: demo_env_def demo_args_def)
  have loads: "load demo_env ''in/song.mp3'' = Inr (A2 3 [[1, 2, 3], [4, 5, 6]], 44100)"
    "load demo_env ''in/bad.mp3'' = Inl (LibraryError ''decoding failed'')"
    "load demo_env ''in/song.flac'' = Inr (A2 3 [[1, 2, 3], [4, 5, 6]], 44100)"
    "load demo_env ''in/mono.wav'' = Inr (A1 [1 / 2, 1 / 4], 44100)"
    by (simp_all add: demo_env_def)
  have known: "store_dir demo_args = ''out''" "extract_instrumental demo_args"
    "active_instruments demo_config = [''vocals'', ''other'']"
    "mkdir demo_env ''out'' = None"
    by (simp_all add: demo_args_def demo_config_def active_instruments_def demo_env_def)
  show ?thesis
    using batch_fault_isolation [OF dir contract, of init_state]
    unfolding paths
    by (simp add: loads known init_state_def out_name_def basename_def)
qed

section \<open>The instrumental stem\<close>

lemma write_stems_ignores_flag:
  "write_stems (a\<lparr>extract_instrumental := b\<rparr>) sr st n instrs res s
     = write_stems a sr st n instrs res s"
  by (induction instrs arbitrary: res s) (auto split: option.splits sum.splits)

lemma flag_fields:
  "input_file (a\<lparr>extract_instrumental := b\<rparr>) = input_file a"
  "store_dir (a\<lparr>extract_instrumental := b\<rparr>) = store_dir a"
  "model_type (a\<lparr>extract_instrumental := b\<rparr>) = model_type a"
  "arg_stereo_narrowing (a\<lparr>extract_instrumental := b\<rparr>) = arg_stereo_narrowing a"
  by simp_all

lemma run_single_file_ignores_flag:
  "run_single_file w (a\<lparr>extract_instrumental := b\<rparr>) cfg s = run_single_file w a cfg s"
  unfolding run_single_file_def separate_and_write_def prepare_def ensure_store_dir_def
    separate_def write_stems_ignores_flag flag_fields
  by (rule refl)

text \<open>
  Claim C5. In a pass of the batch loop over a file that loads, with \<open>vocals\<close> among the
  instruments and the extraction asked for, and with a vocals stem of the mixture's
  shape, one more file is written after the stems, named with \<open>instrumental\<close>: its array
  has the shape of the mixture as loaded (transposed, a mono buffer doubled, with no
  narrowing and no padding), and each entry is the mixture's entry minus the entry of
  the vocals at the same channel and sample. A single-file run never reads the flag.
\<close>

theorem instrumental_is_mixture_minus_vocals:
  assumes load: "load w path = Inr (loaded, sr)"
    and sep: "separate w a (transpose_nd (mono_to_stereo (transpose_nd loaded))) = Inr res"
    and present: "\<forall>i\<in>set instrs. res i \<noteq> None"
    and flag: "''vocals'' \<in> set instrs" "extract_instrumental a"
    and voc: "res ''vocals'' = Some vocals"
    and aligned: "shape vocals = shape (transpose_nd (mono_to_stereo (transpose_nd loaded)))"
    and rect: "rectangular vocals"
  shows "\<exists>diff.
           folder_track w a instrs path s =
             (Returned,
              s\<lparr>written := written s
                   @ map (\<lambda>i. (out_name (store_dir a) path i, transpose_nd (the (res i)), sr)) instrs
                   @ [(out_name (store_dir a) path ''instrumental'', diff, sr)]\<rparr>)
         \<and> shape diff = shape (mono_to_stereo (transpose_nd loaded))
         \<and> (\<forall>i<dim0 diff. \<forall>j<shape diff ! 1.
               entry diff i j = entry (mono_to_stereo (transpose_nd loaded)) i j - entry vocals j i)
         \<and> run_single_file w (a\<lparr>extract_instrumental := True\<rparr>) cfg s
             = run_single_file w (a\<lparr>extract_instrumental := False\<rparr>) cfg s"
proof -
  have mix: "mono_to_stereo (transpose_nd loaded) = folder_mix loaded"
    by (simp add: folder_mix_def)
  have all: "\<forall>i\<in>set instrs. res i = Some (the (res i))"
    using present by auto
  let ?s1 = "s\<lparr>written := written s
                @ map (\<lambda>i. (out_name (store_dir a) path i, transpose_nd (the (res i)), sr)) instrs\<rparr>"
  have track: "folder_track w a instrs path s
                 = write_instrumental a path sr instrs (folder_mix loaded) res ?s1"
    using sep unfolding mix by (rule folder_track_readable [OF load _ all])
  obtain diff where wi: "write_instrumental a path sr instrs (folder_mix loaded) res ?s1
             = (Returned, sf_write (out_name (store_dir a) path ''instrumental'') diff sr ?s1)"
    and sh: "shape diff = shape (folder_mix loaded)"
    and ent: "\<forall>i<dim0 (folder_mix loaded). \<forall>j<shape (folder_mix loaded) ! 1.
                 entry diff i j = entry (folder_mix loaded) i j - entry vocals j i"
    using instrumental_aligned [where res = res and vocals = vocals and loaded = loaded
          and instrs = instrs and a = a and path = path and sr = sr and s = ?s1]
      flag voc aligned rect unfolding mix by blast
  have d0: "dim0 diff = dim0 (folder_mix loaded)"
    using sh by (cases diff; cases "folder_mix loaded") auto
  have "folder_track w a instrs path s =
             (Returned,
              s\<lparr>written := written s
                   @ map (\<lambda>i. (out_name (store_dir a) path i, transpose_nd (the (res i)), sr)) instrs
                   @ [(out_name (store_dir a) path ''instrumental'', diff, sr)]\<rparr>)"
    using track wi by (simp add: sf_write_def)
  moreover have "\<forall>i<dim0 diff. \<forall>j<shape diff ! 1.
               entry diff i j = entry (mono_to_stereo (transpose_nd loaded)) i j - entry vocals j i"
    using ent unfolding mix d0 sh by simp
  moreover have "run_single_file w (a\<lparr>extract_instrumental := True\<rparr>) cfg s
             = run_single_file w (a\<lparr>extract_instrumental := False\<rparr>) cfg s"
    using run_single_file_ignores_flag [where a = a and b = True]
          run_single_file_ignores_flag [where a = a and b = False] by simp
  ultimately show ?thesis
    using sh unfolding mix by blast
qed


theorem instrumental_is_mixture_minus_vocals_witness:
  "load demo_env ''in/song.mp3'' = Inr (A2 3 [[1, 2, 3], [4, 5, 6]], 44100)
   \<and> extract_instrumental demo_args
   \<and> (\<exists>diff.
         folder_track demo_env demo_args [''vocals'', ''other''] ''in/song.mp3'' init_state =
           (Returned,
            \<lparr>sleeps = [], printed = [],
               written = [(''out/song_vocals.wav'', A2 2 [[1 / 4, 1], [1 / 2, 5 / 4], [3 / 4, 3 / 2]], 44100),
                          (''out/song_other.wav'', A2 2 [[3 / 4, 3], [3 / 2, 15 / 4], [9 / 4, 9 / 2]], 44100),
                          (''out/song_instrumental.wav'', diff, 44100)],
               dirs_made = []\<rparr>)
       \<and> shape diff = [3, 2]
       \<and> entry diff 0 0 = 3 / 4 \<and> entry diff 0 1 = 3
       \<and> entry diff 1 0 = 3 / 2 \<and> entry diff 1 1 = 15 / 4
       \<and> entry diff 2 0 = 9 / 4 \<and> entry diff 2 1 = 9 / 2)"
proof -
  let ?loaded = "A2 3 [[1, 2, 3], [4, 5, 6]]"
  let ?res = "\<lambda>i. if i = ''vocals'' then Some (scale_nd (1 / 4) ?loaded)
                   else if i = ''other'' then Some (scale_nd (3 / 4) ?loaded) else None"
  let ?vocals = "A2 3 [[1 / 4, 1 / 2, 3 / 4], [1, 5 / 4, 3 / 2]]"
  have mix: "transpose_nd (mono_to_stereo (transpose_nd ?loaded)) = ?loaded"
    by code_simp
  have load: "load demo_env ''in/song.mp3'' = Inr (?loaded, 44100)"
    by (simp add: demo_env_def)
  have sep: "separate demo_env demo_args (transpose_nd (mono_to_stereo (transpose_nd ?loaded)))
               = Inr ?res"
    unfolding mix by (simp add: separate_def demo_env_def demo_args_def demo_engine_def)
  have present: "\<forall>i\<in>set [''vocals'', ''other'']. ?res i \<noteq> None"
    by simp
  have flag: "''vocals'' \<in> set [''vocals'', ''other'']" "extract_instrumental demo_args"
    by (simp_all add: demo_args_def)
  have voc: "?res ''vocals'' = Some ?vocals"
    by simp
  have aligned: "shape ?vocals = shape (transpose_nd (mono_to_stereo (transpose_nd ?loaded)))"
    by simp
  have rect: "rectangular ?vocals"
    by simp
  obtain diff where track: "folder_track demo_env demo_args [''vocals'', ''other''] ''in/song.mp3'' init_state =
             (Returned,
              init_state\<lparr>written := written init_state
                   @ map (\<lambda>i. (out_name (store_dir demo_args) ''in/song.mp3'' i,
                                transpose_nd (the (?res i)), 44100)) [''vocals'', ''other'']
                   @ [(out_name (store_dir demo_args) ''in/song.mp3'' ''instrumental'', diff, 44100)]\<rparr>)"
    and sh: "shape diff = shape (mono_to_stereo (transpose_nd ?loaded))"
    and ent: "\<forall>i<dim0 diff. \<forall>j<shape diff ! 1.
               entry diff i j = entry (mono_to_stereo (transpose_nd ?loaded)) i j - entry ?vocals j i"
    using instrumental_is_mixture_minus_vocals [OF load sep present flag voc aligned rect,
            of init_state]
    by blast
  have sh': "shape diff = [3, 2]"
    using sh by (simp add: upt_conv_Cons)
  then have d0: "dim0 diff = 3"
    by (cases diff) auto
  have tmix: "mono_to_stereo (transpose_nd ?loaded) = A2 2 [[1, 4], [2, 5], [3, 6]]"
    by code_simp
  have ent': "entry diff i j = entry (A2 2 [[1, 4], [2, 5], [3, 6]]) i j - entry ?vocals j i"
    if "i < 3" and "j < 2" for i j
    using ent that unfolding tmix d0 sh' by simp
  have "entry diff 0 0 = 3 / 4" "entry diff 0 1 = 3" "entry diff 1 0 = 3 / 2"
    "entry diff 1 1 = 15 / 4" "entry diff 2 0 = 9 / 4" "entry diff 2 1 = 9 / 2"
    by (simp_all add: ent')
  moreover have "folder_track demo_env demo_args [''vocals'', ''other''] ''in/song.mp3'' init_state =
           (Returned,
            \<lparr>sleeps = [], printed = [],
               written = [(''out/song_vocals.wav'', A2 2 [[1 / 4, 1], [1 / 2, 5 / 4], [3 / 4, 3 / 2]], 44100),
                          (''out/song_other.wav'', A2 2 [[3 / 4, 3], [3 / 2, 15 / 4], [9 / 4, 9 / 2]], 44100),
                          (''out/song_instrumental.wav'', diff, 44100)],
               dirs_made = []\<rparr>)"
    unfolding track
    by (simp add: init_state_def demo_args_def out_name_def basename_def upt_conv_Cons)
  ultimately show ?thesis
    using load flag(2) sh' by blast
qed

section \<open>What each mode writes for a stem\<close>

lemma write_stems_distinct:
  assumes "distinct instrs"
    and "\<forall>i\<in>set instrs. \<exists>stem sliced. res i = Some stem \<and> slice_cols stem n = Inr sliced
           \<and> (if arg_stereo_narrowing a \<noteq> 0 \<and> st
               then stereo_widering sliced (arg_stereo_narrowing a) else Inr sliced) = Inr (post i)"
  shows "write_stems a sr st n instrs res s =
           (Returned, s\<lparr>written := written s
              @ map (\<lambda>i. (out_name (store_dir a) (input_file a) i, transpose_nd (post i), sr)) instrs\<rparr>)"
  using assms
proof (induction instrs arbitrary: res s)
  case Nil
  then show ?case by simp
next
  case (Cons i rest)
  obtain stem sliced where stem: "res i = Some stem" and sl: "slice_cols stem n = Inr sliced"
    and post: "(if arg_stereo_narrowing a \<noteq> 0 \<and> st
               then stereo_widering sliced (arg_stereo_narrowing a) else Inr sliced) = Inr (post i)"
    using Cons.prems(2) by auto
  have d: "distinct rest" and fresh: "i \<notin> set rest"
    using Cons.prems(1) by simp_all
  have keep: "\<forall>j\<in>set rest. \<exists>stem sliced. (res(i \<mapsto> x)) j = Some stem \<and> slice_cols stem n = Inr sliced
           \<and> (if arg_stereo_narrowing a \<noteq> 0 \<and> st
               then stereo_widering sliced (arg_stereo_narrowing a) else Inr sliced) = Inr (post j)" for x
    using Cons.prems(2) fresh by auto
  let ?s1 = "sf_write (out_name (store_dir a) (input_file a) i) (transpose_nd (post i)) sr s"
  have step: "write_stems a sr st n (i # rest) res s = write_stems a sr st n rest (res(i \<mapsto> post i)) ?s1"
    using stem sl post by (auto split: if_splits)
  show ?case
    unfolding step Cons.IH [OF d keep] by (simp add: sf_write_def)
qed

lemma prepare_flags:
  assumes "load w (input_file a) = Inr (loaded, sr0)" and "prepare w a = Inr (mix, sr, st, n)"
  shows "sr = sr0 \<and> st = (dim0 loaded = 2)"
  using assms by (auto simp: prepare_def Let_def split: sum.splits if_splits)

lemma single_file_writes:
  assumes here: "isfile w (input_file a) (sum_list (sleeps s))"
    and dir: "ensure_store_dir w a s = Inr s1"
    and prep: "prepare w a = Inr (mix, sr, st, n)"
    and sep: "separate w a (transpose_nd (mono_to_stereo mix)) = Inr res"
    and dist: "distinct (active_instruments cfg)"
    and post: "\<forall>i\<in>set (active_instruments cfg). \<exists>stem sliced. res i = Some stem
           \<and> slice_cols stem n = Inr sliced
           \<and> (if arg_stereo_narrowing a \<noteq> 0 \<and> st
               then stereo_widering sliced (arg_stereo_narrowing a) else Inr sliced) = Inr (post i)"
  shows "run_single_file w a cfg s =
           (Returned, s1\<lparr>written := written s1
              @ map (\<lambda>i. (out_name (store_dir a) (input_file a) i, transpose_nd (post i), sr))
                  (active_instruments cfg)\<rparr>)"
  using here dir prep sep write_stems_distinct [OF dist post, of sr s1]
  by (simp add: run_single_file_def separate_and_write_def)

lemma folder_track_writes:
  assumes load: "load w path = Inr (loaded, sr)"
    and sep: "separate w a (transpose_nd (folder_mix loaded)) = Inr res"
    and all: "\<forall>i\<in>set instrs. res i = Some (stems i)"
  shows "\<exists>extra. written (snd (folder_track w a instrs path s)) =
                   written s
                     @ map (\<lambda>i. (out_name (store_dir a) path i, transpose_nd (stems i), sr)) instrs
                     @ extra
           \<and> (extra = [] \<or> (\<exists>d. extra = [(out_name (store_dir a) path ''instrumental'', d, sr)]))"
  unfolding folder_track_readable [OF load sep all]
  using write_instrumental_written
    [of a path sr instrs "folder_mix loaded" res
        "s\<lparr>written := written s
                @ map (\<lambda>i. (out_name (store_dir a) path i, transpose_nd (stems i), sr)) instrs\<rparr>"]
  by simp

text \<open>
  Claim C9. In a pass of the batch loop, the array written for each instrument is the
  stem the separation returned, transposed for the writer as every written array is:
  it is neither sliced nor widened, whatever the width option is. In a single-file run
  the array written for each instrument is the stem sliced to \<open>original_length\<close> and
  then, when the width is not zero and the loaded buffer has two rows (the condition
  under which the input was narrowed), widened with the same width.
\<close>

theorem batch_writes_unprocessed_stems:
  "(load w path = Inr (loaded, sr)
      \<and> separate w a (transpose_nd (folder_mix loaded)) = Inr res
      \<and> (\<forall>i\<in>set instrs. res i = Some (stems i))
    \<longrightarrow> (\<exists>extra. written (snd (folder_track w a instrs path s)) =
                   written s
                     @ map (\<lambda>i. (out_name (store_dir a) path i, transpose_nd (stems i), sr)) instrs
                     @ extra
           \<and> (extra = [] \<or> (\<exists>d. extra = [(out_name (store_dir a) path ''instrumental'', d, sr)]))))
   \<and> (isfile w (input_file a) (sum_list (sleeps s))
      \<and> ensure_store_dir w a s = Inr sd
      \<and> load w (input_file a) = Inr (loaded', srl)
      \<and> prepare w a = Inr (mix, sr', st, n)
      \<and> separate w a (transpose_nd (mono_to_stereo mix)) = Inr res'
      \<and> distinct (active_instruments cfg)
      \<and> (\<forall>i\<in>set (active_instruments cfg). \<exists>stem sliced. res' i = Some stem
           \<and> slice_cols stem n = Inr sliced
           \<and> (if arg_stereo_narrowing a \<noteq> 0 \<and> st
               then stereo_widering sliced (arg_stereo_narrowing a) else Inr sliced) = Inr (post i))
    \<longrightarrow> st = (dim0 loaded' = 2)
      \<and> run_single_file w a cfg s =
           (Returned, sd\<lparr>written := written sd
              @ map (\<lambda>i. (out_name (store_dir a) (input_file a) i, transpose_nd (post i), sr'))
                  (active_instruments cfg)\<rparr>))"
proof (intro conjI impI)
  assume "load w path = Inr (loaded, sr)
      \<and> separate w a (transpose_nd (folder_mix loaded)) = Inr res
      \<and> (\<forall>i\<in>set instrs. res i = Some (stems i))"
  then show "\<exists>extra. written (snd (folder_track w a instrs path s)) =
                   written s
                     @ map (\<lambda>i. (out_name (store_dir a) path i, transpose_nd (stems i), sr)) instrs
                     @ extra
           \<and> (extra = [] \<or> (\<exists>d. extra = [(out_name (store_dir a) path ''instrumental'', d, sr)]))"
    using folder_track_writes by blast
next
  assume h: "isfile w (input_file a) (sum_list (sleeps s))
      \<and> ensure_store_dir w a s = Inr sd
      \<and> load w (input_file a) = Inr (loaded', srl)
      \<and> prepare w a = Inr (mix, sr', st, n)
      \<and> separate w a (transpose_nd (mono_to_stereo mix)) = Inr res'
      \<and> distinct (active_instruments cfg)
      \<and> (\<forall>i\<in>set (active_instruments cfg). \<exists>stem sliced. res' i = Some stem
           \<and> slice_cols stem n = Inr sliced
           \<and> (if arg_stereo_narrowing a \<noteq> 0 \<and> st
               then stereo_widering sliced (arg_stereo_narrowing a) else Inr sliced) = Inr (post i))"
  then show "st = (dim0 loaded' = 2)"
    using prepare_flags by blast
  from h show "run_single_file w a cfg s =
           (Returned, sd\<lparr>written := written sd
              @ map (\<lambda>i. (out_name (store_dir a) (input_file a) i, transpose_nd (post i), sr'))
                  (active_instruments cfg)\<rparr>)"
    using single_file_writes [of w a s sd mix sr' st n res' cfg post] by blast
qed


theorem batch_writes_unprocessed_stems_witness:
  "load demo_env ''in/song.mp3'' = Inr (A2 3 [[1, 2, 3], [4, 5, 6]], 44100)
   \<and> arg_stereo_narrowing demo_args = 30
   \<and> take 2 (written (snd (folder_track demo_env demo_args [''vocals'', ''other'']
                               ''in/song.mp3'' init_state)))
       = [(''out/song_vocals.wav'', transpose_nd (A2 3 [[1 / 4, 1 / 2, 3 / 4], [1, 5 / 4, 3 / 2]]), 44100),
          (''out/song_other.wav'', transpose_nd (A2 3 [[3 / 4, 3 / 2, 9 / 4], [3, 15 / 4, 9 / 2]]), 44100)]
   \<and> run_single_file demo_env demo_args demo_config init_state
       = (Returned,
          \<lparr>sleeps = [], printed = [],
             written =
               [(''out/song_vocals.wav'', transpose_nd (A2 3 [[1 / 4, 1 / 2, 3 / 4], [1, 5 / 4, 3 / 2]]), 44100),
                (''out/song_other.wav'', transpose_nd (A2 3 [[3 / 4, 3 / 2, 9 / 4], [3, 15 / 4, 9 / 2]]), 44100)],
             dirs_made = [''out'']\<rparr>)"
proof -
  let ?loaded = "A2 3 [[1, 2, 3], [4, 5, 6]]"
  let ?vocals = "A2 3 [[1 / 4, 1 / 2, 3 / 4], [1, 5 / 4, 3 / 2]]"
  let ?other = "A2 3 [[3 / 4, 3 / 2, 9 / 4], [3, 15 / 4, 9 / 2]]"
  let ?stems = "\<lambda>i. if i = ''vocals'' then ?vocals else ?other"
  let ?res = "\<lambda>i. if i = ''vocals'' then Some ?vocals
                   else if i = ''other'' then Some ?other else None"
  let ?instrs = "[''vocals'', ''other'']"
  have v: "arg_stereo_narrowing demo_args = 30" and dir: "store_dir demo_args = ''out''"
    and infile: "input_file demo_args = ''in/song.mp3''"
    by (simp_all add: demo_args_def)
  have instrs: "active_instruments demo_config = ?instrs"
    by (simp add: active_instruments_def demo_config_def)
  have load: "load demo_env ''in/song.mp3'' = Inr (?loaded, 44100)"
    by (simp add: demo_env_def)
  have mix: "transpose_nd (folder_mix ?loaded) = ?loaded"
    unfolding folder_mix_def by code_simp
  have sep: "separate demo_env demo_args (transpose_nd (folder_mix ?loaded)) = Inr ?res"
    unfolding mix
    by (simp add: separate_def demo_env_def demo_args_def demo_engine_def cong: if_cong)
  have all: "\<forall>i\<in>set ?instrs. ?res i = Some (?stems i)"
    by simp
  let ?narrowed = "[[29 / 20, 71 / 20], [49 / 20, 91 / 20], [69 / 20, 111 / 20]]"
  let ?padded = "A2 2 (?narrowed @ replicate 220500 [0, 0])"
  let ?mixture = "A2 220503 [[29 / 20, 49 / 20, 69 / 20] @ replicate 220500 0,
                             [71 / 20, 91 / 20, 111 / 20] @ replicate 220500 0]"
  let ?res' = "\<lambda>i. if i = ''vocals'' then Some (scale_nd (1 / 4) ?mixture)
                    else if i = ''other'' then Some (scale_nd (3 / 4) ?mixture) else None"
  have here: "isfile demo_env (input_file demo_args) (sum_list (sleeps init_state))"
    by (simp add: demo_env_def demo_args_def)
  have made: "ensure_store_dir demo_env demo_args init_state = Inr (init_state\<lparr>dirs_made := [''out'']\<rparr>)"
    by (simp add: ensure_store_dir_def demo_env_def demo_args_def init_state_def)
  have load': "load demo_env (input_file demo_args) = Inr (?loaded, 44100)"
    by (simp add: demo_env_def demo_args_def)
  have prep: "prepare demo_env demo_args = Inr (?padded, 44100, True, 3)"
    by (simp add: prepare_def load' v shape_at_def vstack_def zeros_def Let_def upt_conv_Cons)
  have mixture: "transpose_nd (mono_to_stereo ?padded) = ?mixture"
    by (simp add: upt_conv_Cons)
  have sep': "separate demo_env demo_args (transpose_nd (mono_to_stereo ?padded)) = Inr ?res'"
    unfolding mixture
    by (simp add: separate_def demo_env_def demo_args_def demo_engine_def cong: if_cong)
  have dist: "distinct (active_instruments demo_config)"
    by (simp add: instrs)
  have post: "\<forall>i\<in>set (active_instruments demo_config). \<exists>stem sliced. ?res' i = Some stem
           \<and> slice_cols stem 3 = Inr sliced
           \<and> (if arg_stereo_narrowing demo_args \<noteq> 0 \<and> True
               then stereo_widering sliced (arg_stereo_narrowing demo_args) else Inr sliced)
              = Inr (?stems i)"
    by (simp add: instrs v py_div_def Let_def)
  have batch: "\<exists>extra. written (snd (folder_track demo_env demo_args ?instrs ''in/song.mp3'' init_state)) =
                   written init_state
                     @ map (\<lambda>i. (out_name (store_dir demo_args) ''in/song.mp3'' i,
                                  transpose_nd (?stems i), 44100)) ?instrs
                     @ extra"
    and single: "run_single_file demo_env demo_args demo_config init_state =
           (Returned, init_state\<lparr>dirs_made := [''out''],
              written := written (init_state\<lparr>dirs_made := [''out'']\<rparr>)
              @ map (\<lambda>i. (out_name (store_dir demo_args) (input_file demo_args) i,
                           transpose_nd (?stems i), 44100))
                  (active_instruments demo_config)\<rparr>)"
    using batch_writes_unprocessed_stems
      [where w = demo_env and a = demo_args and path = "''in/song.mp3''" and loaded = ?loaded
         and sr = 44100 and res = ?res and instrs = ?instrs and stems = ?stems
         and s = init_state and sd = "init_state\<lparr>dirs_made := [''out'']\<rparr>"
         and loaded' = ?loaded and srl = 44100 and mix = ?padded and sr' = 44100
         and st = True and n = 3 and res' = ?res' and cfg = demo_config and post = ?stems]
      load sep all here made load' prep sep' dist post
    by blast+
  from batch obtain extra where
    "written (snd (folder_track demo_env demo_args ?instrs ''in/song.mp3'' init_state)) =
       [(''out/song_vocals.wav'', transpose_nd ?vocals, 44100),
        (''out/song_other.wav'', transpose_nd ?other, 44100)] @ extra"
    by (auto simp: init_state_def dir out_name_def basename_def)
  then have "take 2 (written (snd (folder_track demo_env demo_args ?instrs ''in/song.mp3'' init_state)))
       = [(''out/song_vocals.wav'', transpose_nd ?vocals, 44100),
          (''out/song_other.wav'', transpose_nd ?other, 44100)]"
    by simp
  moreover have "run_single_file demo_env demo_args demo_config init_state
       = (Returned,
          \<lparr>sleeps = [], printed = [],
             written =
               [(''out/song_vocals.wav'', transpose_nd ?vocals, 44100),
                (''out/song_other.wav'', transpose_nd ?other, 44100)],
             dirs_made = [''out'']\<rparr>)"
    unfolding single by (simp add: instrs init_state_def dir infile out_name_def basename_def)
  ultimately show ?thesis
    using load v by blast
qed



section \<open>Padding and truncation in a single-file run\<close>

lemma widering_succeeds:
  assumes "2 \<le> length rows" and "v \<noteq> 100"
  shows "\<exists>rows'. stereo_widering (A2 c rows) v = Inr (A2 c rows') \<and> length rows' = length rows"
  using assms by (auto simp: Let_def py_div_def)

text \<open>
  Claim C4. In a single-file run on a loaded buffer of \<open>n\<close> samples per channel, the
  array handed to the separation is every channel (narrowed when narrowing applies)
  followed by \<open>5 * sr\<close> zeros, none before it, and \<open>original_length\<close> is \<open>n\<close>. When the
  separation returns for every instrument a stem of the shape of that array, the run
  returns and writes one file per instrument: the stem cut to its first \<open>n\<close> samples,
  the \<open>5 * sr\<close> samples after them dropped, then widened when narrowing applied, and
  transposed for the writer. Each written array has exactly \<open>n\<close> samples.
\<close>

theorem silence_padding_round_trip:
  assumes load: "load w (input_file a) = Inr (A2 n rows, sr)"
    and rect: "rectangular (A2 n rows)"
    and here: "isfile w (input_file a) (sum_list (sleeps s))"
    and dir: "ensure_store_dir w a s = Inr sd"
    and width: "arg_stereo_narrowing a \<noteq> 100 \<or> length rows \<noteq> 2"
    and dist: "distinct (active_instruments cfg)"
    and engine: "\<forall>m. shape m = [length rows, n + 5 * sr] \<longrightarrow>
                   (\<exists>res. separate w a m = Inr res
                      \<and> (\<forall>i\<in>set (active_instruments cfg). \<exists>stem. res i = Some stem
                             \<and> shape stem = shape m))"
  shows "\<exists>rows1 padded res post.
           (if arg_stereo_narrowing a \<noteq> 0 \<and> length rows = 2
            then stereo_narrowing (A2 n rows) (arg_stereo_narrowing a)
            else Inr (A2 n rows)) = Inr (A2 n rows1)
         \<and> prepare w a = Inr (padded, sr, length rows = 2, n)
         \<and> transpose_nd (mono_to_stereo padded)
             = A2 (n + 5 * sr) (map (\<lambda>row. row @ replicate (5 * sr) 0) rows1)
         \<and> separate w a (transpose_nd (mono_to_stereo padded)) = Inr res
         \<and> (\<forall>i\<in>set (active_instruments cfg). \<exists>stem_rows.
               res i = Some (A2 (n + 5 * sr) stem_rows)
             \<and> (if arg_stereo_narrowing a \<noteq> 0 \<and> length rows = 2
                 then stereo_widering (A2 n (map (take n) stem_rows)) (arg_stereo_narrowing a)
                 else Inr (A2 n (map (take n) stem_rows))) = Inr (post i)
             \<and> dim0 (transpose_nd (post i)) = n)
         \<and> run_single_file w a cfg s =
             (Returned,
              sd\<lparr>written := written s
                    @ map (\<lambda>i. (out_name (store_dir a) (input_file a) i, transpose_nd (post i), sr))
                        (active_instruments cfg)\<rparr>)"
proof -
  let ?v = "arg_stereo_narrowing a"
  let ?narrow = "?v \<noteq> 0 \<and> length rows = 2"
  have rect': "list_all (\<lambda>row. length row = n) rows"
    using rect by simp
  obtain rows1 where l1: "length rows1 = length rows"
    and r1: "list_all (\<lambda>row. length row = n) rows1"
    and n1: "(if ?narrow then stereo_narrowing (A2 n rows) ?v else Inr (A2 n rows)) = Inr (A2 n rows1)"
    and prep: "prepare w a =
               Inr (A2 (length rows)
                      (map (\<lambda>j. map (\<lambda>row. row ! j) rows1) [0..<n]
                         @ replicate (5 * sr) (replicate (length rows) 0)),
                    sr, length rows = 2, n)"
    using prepare_2d [OF load rect'] by blast
  let ?padded = "A2 (length rows)
                      (map (\<lambda>j. map (\<lambda>row. row ! j) rows1) [0..<n]
                         @ replicate (5 * sr) (replicate (length rows) 0))"
  let ?mixture = "A2 (n + 5 * sr) (map (\<lambda>row. row @ replicate (5 * sr) 0) rows1)"
  have mixture: "transpose_nd (mono_to_stereo ?padded) = ?mixture"
    using transpose_padded [OF r1, of "5 * sr"] l1 by simp
  have "shape ?mixture = [length rows, n + 5 * sr]"
    using l1 by simp
  then obtain res where sep: "separate w a ?mixture = Inr res"
    and stems: "\<forall>i\<in>set (active_instruments cfg). \<exists>stem. res i = Some stem
                   \<and> shape stem = [length rows, n + 5 * sr]"
    using engine by metis
  define post where "post i =
      (case res i of
         Some (A2 c stem_rows) \<Rightarrow>
           if ?narrow then projr (stereo_widering (A2 n (map (take n) stem_rows)) ?v)
           else A2 n (map (take n) stem_rows)
       | _ \<Rightarrow> A1 [])" for i
  have each: "\<exists>stem_rows. res i = Some (A2 (n + 5 * sr) stem_rows)
             \<and> slice_cols (A2 (n + 5 * sr) stem_rows) n = Inr (A2 n (map (take n) stem_rows))
             \<and> (if ?narrow then stereo_widering (A2 n (map (take n) stem_rows)) ?v
                 else Inr (A2 n (map (take n) stem_rows))) = Inr (post i)
             \<and> dim0 (transpose_nd (post i)) = n"
    if i: "i \<in> set (active_instruments cfg)" for i
  proof -
    obtain stem where s1: "res i = Some stem" and s2: "shape stem = [length rows, n + 5 * sr]"
      using stems i by blast
    obtain stem_rows where st: "stem = A2 (n + 5 * sr) stem_rows" and sl: "length stem_rows = length rows"
      using two_axes [OF s2] by blast
    have res: "res i = Some (A2 (n + 5 * sr) stem_rows)"
      using s1 st by simp
    have cut: "slice_cols (A2 (n + 5 * sr) stem_rows) n = Inr (A2 n (map (take n) stem_rows))"
      by simp
    show ?thesis
    proof (cases ?narrow)
      case False
      have "post i = A2 n (map (take n) stem_rows)"
        unfolding post_def res by (simp only: option.case ndarray.case if_not_P [OF False])
      moreover have "dim0 (transpose_nd (A2 n (map (take n) stem_rows))) = n"
        by simp
      ultimately show ?thesis
        using res cut by (simp only: if_not_P [OF False]) blast
    next
      case True
      then have "?v \<noteq> 100" and "2 \<le> length (map (take n) stem_rows)"
        using width sl by simp_all
      then obtain rows' where wide: "stereo_widering (A2 n (map (take n) stem_rows)) ?v = Inr (A2 n rows')"
        using widering_succeeds by blast
      have "post i = A2 n rows'"
        unfolding post_def res by (simp only: option.case ndarray.case if_P [OF True] wide sum.sel)
      moreover have "dim0 (transpose_nd (A2 n rows')) = n"
        by simp
      ultimately show ?thesis
        using res cut wide by (simp only: if_P [OF True]) blast
    qed
  qed
  have stmt: "\<forall>i\<in>set (active_instruments cfg). \<exists>stem_rows.
               res i = Some (A2 (n + 5 * sr) stem_rows)
             \<and> (if ?narrow then stereo_widering (A2 n (map (take n) stem_rows)) ?v
                 else Inr (A2 n (map (take n) stem_rows))) = Inr (post i)
             \<and> dim0 (transpose_nd (post i)) = n"
    using each by blast
  have loop: "\<forall>i\<in>set (active_instruments cfg). \<exists>stem sliced. res i = Some stem
           \<and> slice_cols stem n = Inr sliced
           \<and> (if ?v \<noteq> 0 \<and> (length rows = 2)
               then stereo_widering sliced ?v else Inr sliced) = Inr (post i)"
    using each by blast
  have sep': "separate w a (transpose_nd (mono_to_stereo ?padded)) = Inr res"
    using sep mixture by simp
  have wsd: "written sd = written s"
    using ensure_store_dir_written [OF dir] by simp
  have run: "run_single_file w a cfg s =
             (Returned,
              sd\<lparr>written := written s
                    @ map (\<lambda>i. (out_name (store_dir a) (input_file a) i, transpose_nd (post i), sr))
                        (active_instruments cfg)\<rparr>)"
    using single_file_writes [OF here dir prep sep' dist loop] wsd by simp
  from n1 prep mixture sep' stmt run show ?thesis by blast
qed


theorem silence_padding_round_trip_witness:
  "load demo_env (input_file demo_args) = Inr (A2 3 [[1, 2, 3], [4, 5, 6]], 44100)
   \<and> rectangular (A2 3 [[1, 2, 3], [4, 5, 6]])
   \<and> isfile demo_env (input_file demo_args) (sum_list (sleeps init_state))
   \<and> distinct (active_instruments demo_config)
   \<and> (\<exists>padded.
           prepare demo_env demo_args = Inr (padded, 44100, True, 3)
         \<and> transpose_nd (mono_to_stereo padded)
             = A2 220503 [[29 / 20, 49 / 20, 69 / 20] @ replicate 220500 0,
                          [71 / 20, 91 / 20, 111 / 20] @ replicate 220500 0])
   \<and> run_single_file demo_env demo_args demo_config init_state
       = (Returned,
          \<lparr>sleeps = [], printed = [],
             written =
               [(''out/song_vocals.wav'', A2 2 [[1 / 4, 1], [1 / 2, 5 / 4], [3 / 4, 3 / 2]], 44100),
                (''out/song_other.wav'', A2 2 [[3 / 4, 3], [3 / 2, 15 / 4], [9 / 4, 9 / 2]], 44100)],
             dirs_made = [''out'']\<rparr>)"
proof -
  have load: "load demo_env (input_file demo_args) = Inr (A2 3 [[1, 2, 3], [4, 5, 6]], 44100)"
    by (simp add: demo_env_def demo_args_def)
  have rect: "rectangular (A2 3 [[1, 2, 3], [4, 5, 6]])"
    by simp
  have here: "isfile demo_env (input_file demo_args) (sum_list (sleeps init_state))"
    by (simp add: demo_env_def demo_args_def)
  have dir: "ensure_store_dir demo_env demo_args init_state = Inr (init_state\<lparr>dirs_made := [''out'']\<rparr>)"
    by (simp add: ensure_store_dir_def demo_env_def demo_args_def init_state_def)
  have width: "arg_stereo_narrowing demo_args \<noteq> 100 \<or> length [[1, 2, 3], [4, 5, 6::rat]] \<noteq> 2"
    by (simp add: demo_args_def)
  have dist: "distinct (active_instruments demo_config)"
    by (simp add: active_instruments_def demo_config_def)
  have engine: "\<forall>m. shape m = [length [[1, 2, 3], [4, 5, 6::rat]], 3 + 5 * 44100] \<longrightarrow>
                   (\<exists>res. separate demo_env demo_args m = Inr res
                      \<and> (\<forall>i\<in>set (active_instruments demo_config). \<exists>stem. res i = Some stem
                             \<and> shape stem = shape m))"
    by (simp add: separate_def demo_env_def demo_args_def demo_engine_def demo_config_def
          active_instruments_def shape_scale_nd)
  have narrowing: "arg_stereo_narrowing demo_args = 30"
    by (simp add: demo_args_def)
  obtain rows1 padded where
    n1: "stereo_narrowing (A2 3 [[1, 2, 3], [4, 5, 6]]) 30 = Inr (A2 3 rows1)"
    and prep: "prepare demo_env demo_args = Inr (padded, 44100, True, 3)"
    and mix: "transpose_nd (mono_to_stereo padded)
             = A2 (3 + 5 * 44100) (map (\<lambda>row. row @ replicate (5 * 44100) 0) rows1)"
    and ret: "fst (run_single_file demo_env demo_args demo_config init_state) = Returned"
    using silence_padding_round_trip [OF load rect here dir width dist engine]
    unfolding narrowing by auto
  have "rows1 = [[29 / 20, 49 / 20, 69 / 20], [71 / 20, 91 / 20, 111 / 20]]"
    using n1 by (simp add: Let_def)
  then have mix': "transpose_nd (mono_to_stereo padded)
             = A2 220503 [[29 / 20, 49 / 20, 69 / 20] @ replicate 220500 0,
                          [71 / 20, 91 / 20, 111 / 20] @ replicate 220500 0]"
    using mix by simp
  have run: "run_single_file demo_env demo_args demo_config init_state
       = (Returned,
          \<lparr>sleeps = [], printed = [],
             written =
               [(''out/song_vocals.wav'', A2 2 [[1 / 4, 1], [1 / 2, 5 / 4], [3 / 4, 3 / 2]], 44100),
                (''out/song_other.wav'', A2 2 [[3 / 4, 3], [3 / 2, 15 / 4], [9 / 4, 9 / 2]], 44100)],
             dirs_made = [''out'']\<rparr>)"
    by (simp add: demo_run_defs upt_conv_Cons)
  from load rect here dist prep mix' run show ?thesis by blast
qed


end
